theory Spec2Isabelle
  imports Main
begin

section \<open>Strings, numbers and JSON values\<close>

text \<open>
  The backend is JavaScript on Express and Mongoose. Strings are modelled as
  \<^typ>\<open>string\<close> (ASCII), documents as records, the collections as lists in natural
  (insertion) order, and every response body as a JSON value built the way the source
  builds its object literals.
\<close>

datatype json =
    JNull
  | JBool bool
  | JNum nat
  | JStr string
  | JArr "json list"
  | JObj "(string \<times> json) list"

text \<open>A key occurs in a JSON value, at any depth.\<close>

fun has_key :: "string \<Rightarrow> json \<Rightarrow> bool" where
  "has_key k (JArr xs) = (\<exists>x\<in>set xs. has_key k x)"
| "has_key k (JObj kvs) = (\<exists>kv\<in>set kvs. fst kv = k \<or> has_key k (snd kv))"
| "has_key k _ = False"

text \<open>Property access \<open>obj.k\<close> on a JSON object; \<open>None\<close> is \<open>undefined\<close>.\<close>

fun field :: "string \<Rightarrow> json \<Rightarrow> json option" where
  "field k (JObj kvs) = map_of kvs k"
| "field k _ = None"

text \<open>\<open>String.prototype.toLowerCase\<close> and \<open>trim\<close>, on ASCII.\<close>

definition lower_char :: "char \<Rightarrow> char" where
  "lower_char c =
     (case map_of (zip ''ABCDEFGHIJKLMNOPQRSTUVWXYZ'' ''abcdefghijklmnopqrstuvwxyz'') c of
        Some d \<Rightarrow> d
      | None \<Rightarrow> c)"

definition toLowerCase :: "string \<Rightarrow> string" where
  "toLowerCase s = map lower_char s"

definition is_space :: "char \<Rightarrow> bool" where
  "is_space c = (c \<in> set [CHR '' '', CHR 0x09, CHR 0x0A, CHR 0x0B, CHR 0x0C, CHR 0x0D])"

definition trim :: "string \<Rightarrow> string" where
  "trim s = rev (dropWhile is_space (rev (dropWhile is_space s)))"

text \<open>
  JavaScript truthiness of an optional string: \<open>undefined\<close> and the empty string are
  falsy.
\<close>

fun truthy :: "string option \<Rightarrow> bool" where
  "truthy None = False"
| "truthy (Some s) = (s \<noteq> [])"

text \<open>
  The non-negative JavaScript numbers the list handler computes with: a finite
  non-negative integer, \<open>Infinity\<close> or \<open>NaN\<close>. JavaScript numbers are IEEE doubles:
  every integer below \<open>2^53\<close> is a double, and a larger one is rounded to the nearest
  double (53 significant bits, ties to the even significand), to \<open>Infinity\<close> from
  \<open>2^1024 - 2^970\<close> on.
\<close>

datatype jsnum = Num nat | Infinity | NaN

text \<open>The number of binary digits of \<open>n\<close>.\<close>

fun bit_length :: "nat \<Rightarrow> nat" where
  "bit_length n = (if n = 0 then 0 else Suc (bit_length (n div 2)))"

text \<open>The double nearest to the integer \<open>n\<close>.\<close>

definition to_double :: "nat \<Rightarrow> jsnum" where
  "to_double n =
     (if n < 2 ^ 53 then Num n
      else (let e = bit_length n - 53;
                q = n div 2 ^ e;
                r = n mod 2 ^ e;
                half = 2 ^ (e - 1);
                m = (if half < r \<or> (r = half \<and> odd q) then q + 1 else q) * 2 ^ e
            in if 2 ^ 1024 \<le> m then Infinity else Num m))"

fun num_lt :: "jsnum \<Rightarrow> jsnum \<Rightarrow> bool" where
  "num_lt (Num a) (Num b) = (a < b)"
| "num_lt (Num a) Infinity = True"
| "num_lt _ _ = False"

text \<open>\<open>JSON.stringify\<close> writes \<open>NaN\<close> and \<open>Infinity\<close> as \<open>null\<close>.\<close>

fun num_json :: "jsnum \<Rightarrow> json" where
  "num_json (Num n) = JNum n"
| "num_json _ = JNull"

text \<open>\<open>Math.ceil(total / limit)\<close> for a count \<open>n\<close> (the source's \<open>total\<close>), which the
  floating-point division gives exactly for every count below \<open>2^53\<close>.\<close>

fun ceil_div :: "nat \<Rightarrow> jsnum \<Rightarrow> jsnum" where
  "ceil_div n (Num l) =
     (if l = 0 then (if n = 0 then NaN else Infinity)
      else Num ((n + l - 1) div l))"
| "ceil_div n Infinity = Num 0"
| "ceil_div n NaN = NaN"

text \<open>
  \<open>parseInt(s, 10)\<close> on the strings the query validator admits for \<open>page\<close> and
  \<open>limit\<close> (an optional plus sign, then decimal digits): the double nearest to the
  value of the leading digits, \<open>NaN\<close> when there is none. So \<open>parseInt\<close> is exact
  below \<open>2^53\<close> and rounds from there on: \<open>"9007199254740993"\<close> reads as
  \<open>9007199254740992\<close>. The model has no negative numbers; a string with a minus sign,
  which the validator rejects, reads as \<open>NaN\<close>.
\<close>

definition digit_val :: "char \<Rightarrow> nat option" where
  "digit_val c = map_of (zip ''0123456789'' [0, 1, 2, 3, 4, 5, 6, 7, 8, 9]) c"

fun digits_val :: "nat \<Rightarrow> string \<Rightarrow> nat" where
  "digits_val acc [] = acc"
| "digits_val acc (c # cs) =
     (case digit_val c of
        None \<Rightarrow> acc
      | Some d \<Rightarrow> digits_val (10 * acc + d) cs)"

definition parseInt :: "string \<Rightarrow> jsnum" where
  "parseInt s =
     (let t = dropWhile is_space s;
          u = (case t of c # cs \<Rightarrow> (if c = CHR ''+'' then cs else t) | [] \<Rightarrow> t)
      in case u of
           [] \<Rightarrow> NaN
         | c # cs \<Rightarrow> (if digit_val c = None then NaN else to_double (digits_val 0 u)))"

section \<open>Response utilities\<close>

record response =
  res_status :: nat
  res_body :: json

definition OK :: nat where "OK = 200"
definition CREATED :: nat where "CREATED = 201"
definition BAD_REQUEST :: nat where "BAD_REQUEST = 400"
definition UNAUTHORIZED :: nat where "UNAUTHORIZED = 401"
definition NOT_FOUND :: nat where "NOT_FOUND = 404"
definition CONFLICT :: nat where "CONFLICT = 409"
definition UNPROCESSABLE_ENTITY :: nat where "UNPROCESSABLE_ENTITY = 422"
definition INTERNAL_SERVER_ERROR :: nat where "INTERNAL_SERVER_ERROR = 500"

definition INVALID_CREDENTIALS :: string where "INVALID_CREDENTIALS = ''Invalid credentials''"
definition USER_NOT_FOUND :: string where "USER_NOT_FOUND = ''User not found''"
definition UNAUTHORIZED_ACCESS :: string where "UNAUTHORIZED_ACCESS = ''Unauthorized access''"
definition INVALID_TOKEN :: string where "INVALID_TOKEN = ''Invalid or expired token''"
definition TASK_NOT_FOUND :: string where "TASK_NOT_FOUND = ''Task not found''"
definition SERVER_ERROR :: string where "SERVER_ERROR = ''Internal server error''"

text \<open>
  \<open>sendSuccess\<close>: \<open>{success: true, ...data}\<close>, and \<open>message\<close> when it is not empty.
  The spread of \<open>data\<close> comes after \<open>success\<close>.
\<close>

definition sendSuccess :: "nat \<Rightarrow> (string \<times> json) list \<Rightarrow> string \<Rightarrow> response" where
  "sendSuccess statusCode data message =
     \<lparr>res_status = statusCode,
      res_body = JObj ((''success'', JBool True) # data
                        @ (if message \<noteq> [] then [(''message'', JStr message)] else []))\<rparr>"

definition sendError :: "nat \<Rightarrow> string \<Rightarrow> response" where
  "sendError statusCode message =
     \<lparr>res_status = statusCode,
      res_body = JObj [(''success'', JBool False), (''message'', JStr message)]\<rparr>"

definition sendPaginatedResponse :: "json list \<Rightarrow> jsnum \<Rightarrow> jsnum \<Rightarrow> nat \<Rightarrow> response" where
  "sendPaginatedResponse data page limit totalItems =
     (let totalPages = ceil_div totalItems limit;
          hasNextPage = num_lt page totalPages;
          hasPrevPage = num_lt (Num 1) page
      in \<lparr>res_status = OK,
          res_body = JObj
            [(''success'', JBool True),
             (''data'', JArr data),
             (''pagination'', JObj
                [(''currentPage'', num_json page),
                 (''totalPages'', num_json totalPages),
                 (''totalItems'', JNum totalItems),
                 (''itemsPerPage'', num_json limit),
                 (''hasNextPage'', JBool hasNextPage),
                 (''hasPrevPage'', JBool hasPrevPage)])]\<rparr>)"

section \<open>Documents\<close>

text \<open>
  Every Mongoose document has an \<open>_id\<close> and, with \<open>timestamps: true\<close>, the two
  timestamps. Times are natural numbers (a clock reading).
\<close>

record doc =
  oid :: string
  createdAt :: nat
  updatedAt :: nat

record task = doc +
  title :: string
  description :: string
  status :: string
  userId :: string

text \<open>The task schema's \<open>toJSON\<close> transform: \<open>_id\<close> becomes \<open>id\<close>, \<open>__v\<close> is dropped.\<close>

definition task_toJSON :: "task \<Rightarrow> json" where
  "task_toJSON t =
     JObj [(''title'', JStr (title t)),
           (''description'', JStr (description t)),
           (''status'', JStr (status t)),
           (''userId'', JStr (userId t)),
           (''createdAt'', JNum (createdAt t)),
           (''updatedAt'', JNum (updatedAt t)),
           (''id'', JStr (oid t))]"

section \<open>Task model: \<open>findByUser\<close> and \<open>countByUser\<close>\<close>

record filters =
  f_status :: "string option"
  f_search :: "string option"

text \<open>
  The query object both statics build: \<open>{userId}\<close>, plus \<open>status\<close> and \<open>$text\<close> when
  the filter is truthy. MongoDB's text search is a parameter \<open>txt\<close> (search string,
  task).
\<close>

definition task_query :: "(string \<Rightarrow> task \<Rightarrow> bool) \<Rightarrow> string \<Rightarrow> filters \<Rightarrow> task \<Rightarrow> bool" where
  "task_query txt uid f t =
     (userId t = uid
      \<and> (if truthy (f_status f) then status t = the (f_status f) else True)
      \<and> (if truthy (f_search f) then txt (the (f_search f)) t else True))"

text \<open>
  \<open>findByUser\<close>: find, sort by \<open>-createdAt\<close> (newest first), then skip and limit when
  \<open>options.page && options.limit\<close>. \<open>None\<close> is the default \<open>options = {}\<close>. The
  number of skipped documents \<open>(page - 1) * limit\<close> is computed exactly, as JavaScript
  computes it while the product is below \<open>2^53\<close>; the statements about the list are
  made for that range.
\<close>

definition newest_first :: "task list \<Rightarrow> task list" where
  "newest_first ts = rev (sort_key createdAt ts)"

definition findByUser ::
  "(string \<Rightarrow> task \<Rightarrow> bool) \<Rightarrow> task list \<Rightarrow> string \<Rightarrow> filters \<Rightarrow> (jsnum \<times> jsnum) option \<Rightarrow> task list" where
  "findByUser txt db uid f options =
     (let taskQuery = newest_first (filter (task_query txt uid f) db)
      in case options of
           Some (Num page, Num limit) \<Rightarrow>
             (if page \<noteq> 0 \<and> limit \<noteq> 0
              then take limit (drop ((page - 1) * limit) taskQuery)
              else taskQuery)
         | _ \<Rightarrow> taskQuery)"

definition countByUser :: "(string \<Rightarrow> task \<Rightarrow> bool) \<Rightarrow> task list \<Rightarrow> string \<Rightarrow> filters \<Rightarrow> nat" where
  "countByUser txt db uid f = length (filter (task_query txt uid f) db)"

section \<open>Task controller: \<open>getTasks\<close>\<close>

text \<open>
  The query string of \<open>GET /api/tasks\<close>. \<open>uid\<close> is \<open>req.user.id\<close>.
\<close>

record task_query_params =
  q_status :: "string option"
  q_search :: "string option"
  q_page :: "string option"
  q_limit :: "string option"

definition build_filters :: "task_query_params \<Rightarrow> filters" where
  "build_filters q =
     \<lparr>f_status = (if truthy (q_status q) then q_status q else None),
      f_search = (if truthy (q_search q) then q_search q else None)\<rparr>"

definition getTasks ::
  "(string \<Rightarrow> task \<Rightarrow> bool) \<Rightarrow> task list \<Rightarrow> string \<Rightarrow> task_query_params \<Rightarrow> response" where
  "getTasks txt db uid q =
     (let f = build_filters q;
          usePagination = (truthy (q_page q) \<and> truthy (q_limit q))
      in if usePagination
         then (let pageNum = parseInt (the (q_page q));
                   limitNum = parseInt (the (q_limit q));
                   tasks = findByUser txt db uid f (Some (pageNum, limitNum));
                   totalItems = countByUser txt db uid f
               in sendPaginatedResponse (map task_toJSON tasks) pageNum limitNum totalItems)
         else \<lparr>res_status = OK,
               res_body = JArr (map task_toJSON (findByUser txt db uid f None))\<rparr>)"

section \<open>Errors and the central error handler\<close>

text \<open>
  What a handler can throw into \<open>next(error)\<close>: a Mongoose \<open>ValidationError\<close> (one
  message per failing path), a duplicate-key error of a unique index (code 11000, with
  the index's field and the offending value), a \<open>CastError\<close> (path, value), or any
  other JavaScript error (its message).
\<close>

datatype app_error =
    ValidationError "string list"
  | DuplicateKey string string
  | CastError string string
  | JsError string

fun join :: "string \<Rightarrow> string list \<Rightarrow> string" where
  "join sep [] = []"
| "join sep [x] = x"
| "join sep (x # y # ys) = x @ sep @ join sep (y # ys)"

definition upper_char :: "char \<Rightarrow> char" where
  "upper_char c =
     (case map_of (zip ''abcdefghijklmnopqrstuvwxyz'' ''ABCDEFGHIJKLMNOPQRSTUVWXYZ'') c of
        Some d \<Rightarrow> d
      | None \<Rightarrow> c)"

definition capitalize :: "string \<Rightarrow> string" where
  "capitalize s = (case s of [] \<Rightarrow> [] | c # cs \<Rightarrow> upper_char c # cs)"

text \<open>
  \<open>errorHandler\<close>, in the production configuration (no \<open>stack\<close> in the body). The
  branches are tried in the source's order; the errors of the model carry no
  \<open>statusCode\<close>, so the default branch answers 500.
\<close>

fun errorHandler :: "app_error \<Rightarrow> response" where
  "errorHandler (ValidationError msgs) = sendError UNPROCESSABLE_ENTITY (join '', '' msgs)"
| "errorHandler (DuplicateKey fld v) =
     sendError CONFLICT (capitalize fld @ '' '' @ [CHR 0x27] @ v @ [CHR 0x27] @ '' already exists'')"
| "errorHandler (CastError path v) = sendError BAD_REQUEST (''Invalid '' @ path @ '': '' @ v)"
| "errorHandler (JsError m) =
     sendError INTERNAL_SERVER_ERROR (if m \<noteq> [] then m else SERVER_ERROR)"

definition notFound :: "string \<Rightarrow> response" where
  "notFound originalUrl = sendError NOT_FOUND (''Route '' @ originalUrl @ '' not found'')"

section \<open>User model\<close>

text \<open>
  In a loaded document \<open>password = None\<close> means that the path was not selected
  (\<open>select: false\<close>, or \<open>.select('-password')\<close>); in the collection every user has
  its hash.
\<close>

record user = doc +
  username :: string
  email :: string
  password :: "string option"

text \<open>The schema setters of \<open>username\<close> and \<open>email\<close>: \<open>lowercase: true, trim: true\<close>.
  Mongoose applies them to assigned values and to the values of query filters.\<close>

definition user_cast :: "string \<Rightarrow> string" where
  "user_cast s = trim (toLowerCase s)"

text \<open>The user schema's \<open>toJSON\<close> transform: \<open>id\<close> is added, \<open>_id\<close>, \<open>__v\<close> and
  \<open>password\<close> are deleted.\<close>

definition user_toObject :: "user \<Rightarrow> (string \<times> json) list" where
  "user_toObject u =
     [(''_id'', JStr (oid u)), (''username'', JStr (username u)), (''email'', JStr (email u))]
     @ (case password u of None \<Rightarrow> [] | Some h \<Rightarrow> [(''password'', JStr h)])
     @ [(''createdAt'', JNum (createdAt u)), (''updatedAt'', JNum (updatedAt u)), (''__v'', JNum 0)]"

definition user_toJSON :: "user \<Rightarrow> json" where
  "user_toJSON u =
     JObj (filter (\<lambda>kv. fst kv \<notin> set [''_id'', ''__v'', ''password''])
             (user_toObject u @ [(''id'', JStr (oid u))]))"

definition toPublicJSON :: "user \<Rightarrow> (string \<times> json) list" where
  "toPublicJSON u =
     [(''id'', JStr (oid u)),
      (''username'', JStr (username u)),
      (''email'', JStr (email u)),
      (''createdAt'', JNum (createdAt u)),
      (''updatedAt'', JNum (updatedAt u))]"

text \<open>Character classes of the regular expressions in the schemas and rule sets.\<close>

definition is_upper :: "char \<Rightarrow> bool" where
  "is_upper c = (c \<in> set ''ABCDEFGHIJKLMNOPQRSTUVWXYZ'')"

definition is_lower :: "char \<Rightarrow> bool" where
  "is_lower c = (c \<in> set ''abcdefghijklmnopqrstuvwxyz'')"

definition is_digit :: "char \<Rightarrow> bool" where
  "is_digit c = (c \<in> set ''0123456789'')"

definition is_special :: "char \<Rightarrow> bool" where
  "is_special c = (c \<in> set (''!@#$%^&*(),.?:{}|<>'' @ [CHR 0x22]))"

text \<open>\<open>/^[a-zA-Z0-9_-]+$/\<close>\<close>

definition matches_username :: "string \<Rightarrow> bool" where
  "matches_username s =
     (s \<noteq> [] \<and> (\<forall>c\<in>set s. is_upper c \<or> is_lower c \<or> is_digit c \<or> c = CHR ''_'' \<or> c = CHR ''-''))"

text \<open>\<open>/^\S+@\S+\.\S+$/\<close>: no white space, an \<open>@\<close> after at least one character,
  and a later dot with at least one character on each side.\<close>

definition matches_email :: "string \<Rightarrow> bool" where
  "matches_email s =
     ((\<forall>c\<in>set s. \<not> is_space c)
      \<and> list_ex (\<lambda>i. s ! i = CHR ''@'' \<and> 0 < i
                    \<and> list_ex (\<lambda>j. s ! j = CHR ''.'' \<and> i + 1 < j \<and> j + 1 < length s)
                         [0..<length s])
           [0..<length s])"

text \<open>
  Schema validation of one path: the first failing validator's message, in the order
  \<open>required\<close>, \<open>minlength\<close>, \<open>maxlength\<close>, \<open>match\<close>. \<open>None\<close> as a value is
  \<open>undefined\<close>.
\<close>

definition validate_username :: "string option \<Rightarrow> string option" where
  "validate_username v =
     (case v of
        None \<Rightarrow> Some ''Username is required''
      | Some s \<Rightarrow>
          if s = [] then Some ''Username is required''
          else if length s < 3 then Some ''Username must be at least 3 characters''
          else if 30 < length s then Some ''Username cannot exceed 30 characters''
          else if \<not> matches_username s
            then Some ''Username can only contain letters, numbers, underscores, and hyphens''
          else None)"

definition validate_email :: "string option \<Rightarrow> string option" where
  "validate_email v =
     (case v of
        None \<Rightarrow> Some ''Email is required''
      | Some s \<Rightarrow>
          if s = [] then Some ''Email is required''
          else if \<not> matches_email s then Some ''Please provide a valid email address''
          else None)"

definition validate_password :: "string option \<Rightarrow> string option" where
  "validate_password v =
     (case v of
        None \<Rightarrow> Some ''Password is required''
      | Some s \<Rightarrow>
          if s = [] then Some ''Password is required''
          else if length s < 8 then Some ''Password must be at least 8 characters''
          else None)"

fun cat_options :: "'a option list \<Rightarrow> 'a list" where
  "cat_options [] = []"
| "cat_options (None # xs) = cat_options xs"
| "cat_options (Some x # xs) = x # cat_options xs"

section \<open>Environment\<close>

text \<open>
  What the handlers take from outside the repository: the process environment, the
  clock, the token library's codec (\<open>jwt_decode\<close> reads a compact token string back
  into its claims and the key that signed it; \<open>None\<close> for a malformed string),
  bcrypt (the salt is drawn inside \<open>bcrypt_hash\<close>), MongoDB's text search, the
  validator library's \<open>isEmail\<close> and \<open>normalizeEmail\<close>, and the next generated
  ObjectId.
\<close>

record jwt =
  jwt_id :: string
  iat :: nat
  exp :: nat
  jwt_key :: string

record env =
  JWT_SECRET :: string
  JWT_EXPIRES_IN :: "nat option"
  clock :: nat
  jwt_encode :: "jwt \<Rightarrow> string"
  jwt_decode :: "string \<Rightarrow> jwt option"
  bcrypt_hash :: "string \<Rightarrow> string"
  bcrypt_compare :: "string \<Rightarrow> string \<Rightarrow> bool"
  text_search :: "string \<Rightarrow> task \<Rightarrow> bool"
  isEmail :: "string \<Rightarrow> bool"
  normalizeEmail :: "string \<Rightarrow> string"
  new_oid :: string

record store =
  users :: "user list"
  tasks :: "task list"

section \<open>Token utilities\<close>

datatype jwt_error = TokenExpiredError | JsonWebTokenError | OtherJwtError

text \<open>\<open>jwt.sign({id}, secret, {expiresIn})\<close>: issued now, expiring \<open>expiresIn\<close>
  seconds later. The default lifetime \<open>'7d'\<close> is 604800 seconds.\<close>

definition jwt_sign :: "env \<Rightarrow> string \<Rightarrow> string \<Rightarrow> nat \<Rightarrow> string" where
  "jwt_sign e ident secret expiresIn =
     jwt_encode e \<lparr>jwt_id = ident, iat = clock e, exp = clock e + expiresIn, jwt_key = secret\<rparr>"

definition generateToken :: "env \<Rightarrow> string \<Rightarrow> string" where
  "generateToken e ident =
     jwt_sign e ident (JWT_SECRET e)
       (case JWT_EXPIRES_IN e of Some n \<Rightarrow> n | None \<Rightarrow> 604800)"

text \<open>
  \<open>jwt.verify(token, secret)\<close>: a missing or empty token, a malformed one and a wrong
  signature are \<open>JsonWebTokenError\<close>s; then the expiry is checked, and a token is
  expired from the second \<open>exp\<close> on.
\<close>

definition jwt_verify :: "env \<Rightarrow> string option \<Rightarrow> string \<Rightarrow> jwt_error + jwt" where
  "jwt_verify e token secret =
     (if \<not> truthy token then Inl JsonWebTokenError
      else case jwt_decode e (the token) of
             None \<Rightarrow> Inl JsonWebTokenError
           | Some t \<Rightarrow>
               if jwt_key t \<noteq> secret then Inl JsonWebTokenError
               else if exp t \<le> clock e then Inl TokenExpiredError
               else Inr t)"

section \<open>Authentication middleware\<close>

text \<open>\<open>s.split(c)\<close>\<close>

fun split :: "char \<Rightarrow> string \<Rightarrow> string list" where
  "split c [] = [[]]"
| "split c (x # xs) =
     (if x = c then [] # split c xs
      else (case split c xs of p # ps \<Rightarrow> (x # p) # ps | [] \<Rightarrow> [[x]]))"

text \<open>\<open>xs[1]\<close>, \<open>undefined\<close> beyond the end.\<close>

definition second :: "'a list \<Rightarrow> 'a option" where
  "second xs = (case xs of _ # b # _ \<Rightarrow> Some b | _ \<Rightarrow> None)"

definition startsWith :: "string \<Rightarrow> string \<Rightarrow> bool" where
  "startsWith s p = (take (length p) s = p)"

definition findById :: "user list \<Rightarrow> string \<Rightarrow> user option" where
  "findById us ident = map_option (\<lambda>u. u\<lparr>password := None\<rparr>) (find (\<lambda>u. oid u = ident) us)"

text \<open>
  The result of a middleware: it either answers the request or calls \<open>next()\<close>,
  handing on what it attached.
\<close>

datatype 'a gate = Reject response | Pass 'a

definition protect_message :: "jwt_error \<Rightarrow> string" where
  "protect_message err =
     (if err = TokenExpiredError then ''Token has expired''
      else if err = JsonWebTokenError then ''Invalid token''
      else INVALID_TOKEN)"

text \<open>\<open>protect\<close>: \<open>authorization\<close> is \<open>req.headers.authorization\<close>; on success the
  user, loaded with \<open>.select('-password')\<close>, becomes \<open>req.user\<close>.\<close>

definition protect :: "env \<Rightarrow> user list \<Rightarrow> string option \<Rightarrow> user gate" where
  "protect e us authorization =
     (if truthy authorization \<and> startsWith (the authorization) ''Bearer''
      then (let token = second (split CHR '' '' (the authorization))
            in case jwt_verify e token (JWT_SECRET e) of
                 Inl err \<Rightarrow> Reject (sendError UNAUTHORIZED (protect_message err))
               | Inr decoded \<Rightarrow>
                   (case findById us (jwt_id decoded) of
                      None \<Rightarrow> Reject (sendError UNAUTHORIZED USER_NOT_FOUND)
                    | Some u \<Rightarrow> Pass u))
      else Reject (sendError UNAUTHORIZED UNAUTHORIZED_ACCESS))"

section \<open>User collection: \<open>create\<close> and \<open>save\<close>\<close>

text \<open>
  \<open>User.create({email, username, password})\<close>: the setters run on assignment, the
  document is validated (every path of a new document), the pre-save hook hashes the
  password, and the insert is checked against the unique indexes (\<open>_id\<close>,
  \<open>username\<close>, \<open>email\<close>). The result is the new collection and the created document.
\<close>

definition user_create ::
  "env \<Rightarrow> user list \<Rightarrow> string option \<Rightarrow> string option \<Rightarrow> string option
     \<Rightarrow> app_error + (user list \<times> user)" where
  "user_create e us em un pw =
     (let un' = map_option user_cast un;
          em' = map_option user_cast em;
          errs = cat_options [validate_username un', validate_email em', validate_password pw]
      in if errs \<noteq> [] then Inl (ValidationError errs)
         else (let d = \<lparr>oid = new_oid e, createdAt = clock e, updatedAt = clock e,
                         username = the un', email = the em',
                         password = Some (bcrypt_hash e (the pw))\<rparr>
               in if \<exists>u\<in>set us. oid u = oid d then Inl (DuplicateKey ''_id'' (oid d))
                  else if \<exists>u\<in>set us. username u = username d
                    then Inl (DuplicateKey ''username'' (username d))
                  else if \<exists>u\<in>set us. email u = email d
                    then Inl (DuplicateKey ''email'' (email d))
                  else Inr (us @ [d], d)))"

text \<open>
  \<open>user.save()\<close> of a document that was loaded without its password (\<open>loaded\<close>)
  and then assigned to (\<open>d\<close>). A path is modified when its value differs from the
  loaded one (the password: when it was assigned). Modified paths are validated; the
  pre-save hook hashes the password only when it is modified; the update sets the
  modified paths and \<open>updatedAt\<close> on the stored document with this \<open>_id\<close>, and is
  checked against the unique indexes of the paths it writes. Nothing is written when
  nothing is modified.
\<close>

definition user_save ::
  "env \<Rightarrow> user list \<Rightarrow> user \<Rightarrow> user \<Rightarrow> app_error + (user list \<times> user)" where
  "user_save e us loaded d =
     (let mod_un = (username d \<noteq> username loaded);
          mod_em = (email d \<noteq> email loaded);
          mod_pw = (password d \<noteq> None);
          errs = cat_options
            [if mod_un then validate_username (Some (username d)) else None,
             if mod_em then validate_email (Some (email d)) else None,
             if mod_pw then validate_password (password d) else None]
      in if errs \<noteq> [] then Inl (ValidationError errs)
         else if \<not> (mod_un \<or> mod_em \<or> mod_pw) then Inr (us, d)
         else (let d1 = (if mod_pw
                         then d\<lparr>password := Some (bcrypt_hash e (the (password d)))\<rparr>
                         else d)
               in if mod_un \<and> (\<exists>u\<in>set us. oid u \<noteq> oid d \<and> username u = username d)
                    then Inl (DuplicateKey ''username'' (username d))
                  else if mod_em \<and> (\<exists>u\<in>set us. oid u \<noteq> oid d \<and> email u = email d)
                    then Inl (DuplicateKey ''email'' (email d))
                  else Inr (map (\<lambda>u. if oid u = oid d
                                      then u\<lparr>username := (if mod_un then username d1
                                                          else username u),
                                             email := (if mod_em then email d1 else email u),
                                             password := (if mod_pw then password d1
                                                          else password u),
                                             updatedAt := clock e\<rparr>
                                      else u) us,
                            d1\<lparr>updatedAt := clock e\<rparr>)))"

section \<open>Authentication controller\<close>

text \<open>
  Each handler takes the store and the parts of the request it reads, and returns the
  response and the store after it. A \<open>TypeError\<close> of the source (a method called on
  \<open>undefined\<close>) is a \<open>JsError\<close>, handed to the error handler like every thrown error.
\<close>

definition signup :: "env \<Rightarrow> store \<Rightarrow> (string \<rightharpoonup> string) \<Rightarrow> response \<times> store" where
  "signup e st body =
     (let em = body ''email''; un = body ''username''; pw = body ''password''
      in case un of
           None \<Rightarrow> (errorHandler (JsError ''Cannot read properties of undefined''), st)
         | Some un1 \<Rightarrow>
             (case find (\<lambda>u. (em \<noteq> None \<and> email u = user_cast (the em))
                              \<or> username u = user_cast (toLowerCase un1)) (users st) of
                Some existingUser \<Rightarrow>
                  (sendError CONFLICT
                     (if Some (email existingUser) = em then ''Email already registered''
                      else ''Username already taken''), st)
              | None \<Rightarrow>
                  (case user_create e (users st) em (Some (toLowerCase un1)) pw of
                     Inl err \<Rightarrow> (errorHandler err, st)
                   | Inr (us', u) \<Rightarrow>
                       (sendSuccess CREATED
                          [(''token'', JStr (generateToken e (oid u))),
                           (''user'', JObj (toPublicJSON u))] [],
                        st\<lparr>users := us'\<rparr>))))"

text \<open>\<open>user.comparePassword\<close>: bcrypt throws when either argument is missing.\<close>

definition login :: "env \<Rightarrow> store \<Rightarrow> (string \<rightharpoonup> string) \<Rightarrow> response \<times> store" where
  "login e st body =
     (case body ''emailOrUsername'' of
        None \<Rightarrow> (errorHandler (JsError ''Cannot read properties of undefined''), st)
      | Some ident \<Rightarrow>
          (case find (\<lambda>u. email u = user_cast (toLowerCase ident)
                          \<or> username u = user_cast (toLowerCase ident)) (users st) of
             None \<Rightarrow> (sendError UNAUTHORIZED INVALID_CREDENTIALS, st)
           | Some u \<Rightarrow>
               (case (body ''password'', password u) of
                  (Some pw, Some h) \<Rightarrow>
                    if \<not> bcrypt_compare e pw h
                    then (sendError UNAUTHORIZED INVALID_CREDENTIALS, st)
                    else (sendSuccess OK
                            [(''token'', JStr (generateToken e (oid u))),
                             (''user'', JObj (toPublicJSON u))] [], st)
                | _ \<Rightarrow> (errorHandler (JsError ''Illegal arguments''), st))))"

definition getProfile :: "store \<Rightarrow> user \<Rightarrow> response \<times> store" where
  "getProfile st req_user =
     (case findById (users st) (oid req_user) of
        None \<Rightarrow> (sendError NOT_FOUND USER_NOT_FOUND, st)
      | Some u \<Rightarrow> (sendSuccess OK (toPublicJSON u) [], st))"

text \<open>
  The pre-save uniqueness query of \<open>updateProfile\<close>: one object with the lower-cased
  \<open>username\<close> and \<open>email\<close> that are truthy, and \<open>_id: {$ne: user._id}\<close>; a document
  matches when it matches every key.
\<close>

definition profile_query :: "string option \<Rightarrow> string option \<Rightarrow> string \<Rightarrow> user \<Rightarrow> bool" where
  "profile_query un em self u =
     ((truthy un \<longrightarrow> username u = user_cast (toLowerCase (the un)))
      \<and> (truthy em \<longrightarrow> email u = user_cast (toLowerCase (the em)))
      \<and> oid u \<noteq> self)"

definition updateProfile ::
  "env \<Rightarrow> store \<Rightarrow> user \<Rightarrow> (string \<rightharpoonup> string) \<Rightarrow> response \<times> store" where
  "updateProfile e st req_user body =
     (let un = body ''username''; em = body ''email''; pw = body ''password''
      in case findById (users st) (oid req_user) of
           None \<Rightarrow> (sendError NOT_FOUND USER_NOT_FOUND, st)
         | Some u \<Rightarrow>
             (case (if truthy un \<or> truthy em
                    then find (profile_query un em (oid u)) (users st) else None) of
                Some existingUser \<Rightarrow>
                  (sendError CONFLICT
                     (if Some (username existingUser) = map_option toLowerCase un
                      then ''Username already taken''
                      else ''Email already registered''), st)
              | None \<Rightarrow>
                  (let u1 = (if truthy un
                             then u\<lparr>username := user_cast (toLowerCase (the un))\<rparr> else u);
                       u2 = (if truthy em
                             then u1\<lparr>email := user_cast (toLowerCase (the em))\<rparr> else u1);
                       u3 = (if truthy pw then u2\<lparr>password := pw\<rparr> else u2)
                   in case user_save e (users st) u u3 of
                        Inl err \<Rightarrow> (errorHandler err, st)
                      | Inr (us', saved) \<Rightarrow>
                          (sendSuccess OK (toPublicJSON saved) [], st\<lparr>users := us'\<rparr>))))"

section \<open>Task collection: \<open>create\<close> and \<open>save\<close>\<close>

definition TASK_STATUS :: "string list" where
  "TASK_STATUS = [''todo'', ''in-progress'', ''completed'']"

definition status_message :: string where
  "status_message = ''Status must be one of: '' @ join '', '' TASK_STATUS"

text \<open>Schema validation of the task paths; \<open>title\<close> and \<open>description\<close> are trimmed by
  their setters before.\<close>

definition validate_title :: "string option \<Rightarrow> string option" where
  "validate_title v =
     (case v of
        None \<Rightarrow> Some ''Task title is required''
      | Some s \<Rightarrow>
          if s = [] then Some ''Task title is required''
          else if 200 < length s then Some ''Title cannot exceed 200 characters''
          else None)"

definition validate_description :: "string \<Rightarrow> string option" where
  "validate_description s =
     (if 2000 < length s then Some ''Description cannot exceed 2000 characters'' else None)"

definition validate_status :: "string \<Rightarrow> string option" where
  "validate_status s = (if s \<in> set TASK_STATUS then None else Some status_message)"

text \<open>\<open>Task.create({title, description, status, userId})\<close>\<close>

definition task_create ::
  "env \<Rightarrow> task list \<Rightarrow> string option \<Rightarrow> string \<Rightarrow> string \<Rightarrow> string
     \<Rightarrow> app_error + (task list \<times> task)" where
  "task_create e ts ti de sta uid =
     (let ti' = map_option trim ti;
          de' = trim de;
          errs = cat_options [validate_title ti', validate_description de', validate_status sta]
      in if errs \<noteq> [] then Inl (ValidationError errs)
         else (let d = \<lparr>oid = new_oid e, createdAt = clock e, updatedAt = clock e,
                         title = the ti', description = de', status = sta, userId = uid\<rparr>
               in if \<exists>t\<in>set ts. oid t = oid d then Inl (DuplicateKey ''_id'' (oid d))
                  else Inr (ts @ [d], d)))"

text \<open>
  \<open>task.save()\<close> of a loaded (\<open>loaded\<close>) and then assigned (\<open>d\<close>) document: a path
  is modified when its value differs from the loaded one; the modified paths are
  validated, and when something is modified the update sets them and \<open>updatedAt\<close> on
  the stored document with this \<open>_id\<close>.
\<close>

definition task_save ::
  "env \<Rightarrow> task list \<Rightarrow> task \<Rightarrow> task \<Rightarrow> app_error + (task list \<times> task)" where
  "task_save e ts loaded d =
     (let mod_ti = (title d \<noteq> title loaded);
          mod_de = (description d \<noteq> description loaded);
          mod_st = (status d \<noteq> status loaded);
          errs = cat_options
            [if mod_ti then validate_title (Some (title d)) else None,
             if mod_de then validate_description (description d) else None,
             if mod_st then validate_status (status d) else None]
      in if errs \<noteq> [] then Inl (ValidationError errs)
         else if \<not> (mod_ti \<or> mod_de \<or> mod_st) then Inr (ts, d)
         else Inr (map (\<lambda>t. if oid t = oid d
                             then t\<lparr>title := (if mod_ti then title d else title t),
                                    description := (if mod_de then description d
                                                    else description t),
                                    status := (if mod_st then status d else status t),
                                    updatedAt := clock e\<rparr>
                             else t) ts,
                   d\<lparr>updatedAt := clock e\<rparr>))"

section \<open>Task controller\<close>

text \<open>\<open>Task.findOne({_id: id, userId: uid})\<close>\<close>

definition findOneTask :: "task list \<Rightarrow> string \<Rightarrow> string \<Rightarrow> task option" where
  "findOneTask ts ident uid = find (\<lambda>t. oid t = ident \<and> userId t = uid) ts"

text \<open>\<open>uid\<close> is \<open>req.user.id\<close>, \<open>ident\<close> is \<open>req.params.id\<close>.\<close>

definition getTaskById :: "store \<Rightarrow> string \<Rightarrow> string \<Rightarrow> response \<times> store" where
  "getTaskById st uid ident =
     (case findOneTask (tasks st) ident uid of
        None \<Rightarrow> (sendError NOT_FOUND TASK_NOT_FOUND, st)
      | Some t \<Rightarrow> (\<lparr>res_status = OK, res_body = task_toJSON t\<rparr>, st))"

text \<open>\<open>x || d\<close> on an optional string.\<close>

definition or_default :: "string option \<Rightarrow> string \<Rightarrow> string" where
  "or_default v d = (if truthy v then the v else d)"

definition createTask :: "env \<Rightarrow> store \<Rightarrow> string \<Rightarrow> (string \<rightharpoonup> string) \<Rightarrow> response \<times> store" where
  "createTask e st uid body =
     (case task_create e (tasks st) (body ''title'')
             (or_default (body ''description'') [])
             (or_default (body ''status'') ''todo'') uid of
        Inl err \<Rightarrow> (errorHandler err, st)
      | Inr (ts', t) \<Rightarrow>
          (\<lparr>res_status = CREATED, res_body = task_toJSON t\<rparr>, st\<lparr>tasks := ts'\<rparr>))"

definition assign_patch :: "task \<Rightarrow> (string \<rightharpoonup> string) \<Rightarrow> task" where
  "assign_patch t body =
     (let t1 = (case body ''title'' of None \<Rightarrow> t | Some v \<Rightarrow> t\<lparr>title := trim v\<rparr>);
          t2 = (case body ''description'' of None \<Rightarrow> t1 | Some v \<Rightarrow> t1\<lparr>description := trim v\<rparr>);
          t3 = (case body ''status'' of None \<Rightarrow> t2 | Some v \<Rightarrow> t2\<lparr>status := v\<rparr>)
      in t3)"

definition updateTask ::
  "env \<Rightarrow> store \<Rightarrow> string \<Rightarrow> string \<Rightarrow> (string \<rightharpoonup> string) \<Rightarrow> response \<times> store" where
  "updateTask e st uid ident body =
     (case findOneTask (tasks st) ident uid of
        None \<Rightarrow> (sendError NOT_FOUND TASK_NOT_FOUND, st)
      | Some t \<Rightarrow>
          (case task_save e (tasks st) t (assign_patch t body) of
             Inl err \<Rightarrow> (errorHandler err, st)
           | Inr (ts', saved) \<Rightarrow>
               (\<lparr>res_status = OK, res_body = task_toJSON saved\<rparr>, st\<lparr>tasks := ts'\<rparr>)))"

text \<open>\<open>findOneAndDelete\<close> removes the first matching document.\<close>

fun remove_first :: "('a \<Rightarrow> bool) \<Rightarrow> 'a list \<Rightarrow> 'a list" where
  "remove_first P [] = []"
| "remove_first P (x # xs) = (if P x then xs else x # remove_first P xs)"

definition deleteTask :: "store \<Rightarrow> string \<Rightarrow> string \<Rightarrow> response \<times> store" where
  "deleteTask st uid ident =
     (case findOneTask (tasks st) ident uid of
        None \<Rightarrow> (sendError NOT_FOUND TASK_NOT_FOUND, st)
      | Some t \<Rightarrow>
          (sendSuccess OK [] ''Task deleted successfully'',
           st\<lparr>tasks := remove_first (\<lambda>t. oid t = ident \<and> userId t = uid) (tasks st)\<rparr>))"

section \<open>Validation middleware\<close>

text \<open>
  A request, as far as the middleware reads it: the \<open>Authorization\<close> header and the
  fields of \<open>req.body\<close>, \<open>req.params\<close> and \<open>req.query\<close>. Field values are
  strings; \<open>None\<close> is \<open>undefined\<close>.
\<close>

datatype location = Body | Params | Query

record request =
  req_authorization :: "string option"
  req_body :: "string \<rightharpoonup> string"
  req_params :: "string \<rightharpoonup> string"
  req_query :: "string \<rightharpoonup> string"

definition get_field :: "request \<Rightarrow> location \<Rightarrow> string \<Rightarrow> string option" where
  "get_field req l f =
     (case l of Body \<Rightarrow> req_body req f | Params \<Rightarrow> req_params req f | Query \<Rightarrow> req_query req f)"

definition set_field :: "request \<Rightarrow> location \<Rightarrow> string \<Rightarrow> string \<Rightarrow> request" where
  "set_field req l f v =
     (case l of
        Body \<Rightarrow> req\<lparr>req_body := (req_body req)(f \<mapsto> v)\<rparr>
      | Params \<Rightarrow> req\<lparr>req_params := (req_params req)(f \<mapsto> v)\<rparr>
      | Query \<Rightarrow> req\<lparr>req_query := (req_query req)(f \<mapsto> v)\<rparr>)"

text \<open>One entry of \<open>validationResult(req).array()\<close>.\<close>

record verror =
  e_msg :: string
  e_path :: string
  e_value :: "string option"
  e_location :: location

definition location_name :: "location \<Rightarrow> string" where
  "location_name l = (case l of Body \<Rightarrow> ''body'' | Params \<Rightarrow> ''params'' | Query \<Rightarrow> ''query'')"

definition verror_json :: "verror \<Rightarrow> json" where
  "verror_json err =
     JObj ([(''type'', JStr ''field'')]
           @ (case e_value err of None \<Rightarrow> [] | Some v \<Rightarrow> [(''value'', JStr v)])
           @ [(''msg'', JStr (e_msg err)),
              (''path'', JStr (e_path err)),
              (''location'', JStr (location_name (e_location err)))])"

text \<open>
  The items of an express-validator chain, in the order they were chained: a standard
  validator with the message set by \<open>withMessage\<close> (it sees the value as a string,
  \<open>undefined\<close> as the empty string), a custom validator (it sees the raw value and the
  request, and yields the message of the error it throws), or a sanitizer. A chain does
  not stop at a failing validator: every validator runs, on the value as the sanitizers
  before it left it, and every failure is recorded.
\<close>

datatype item =
    Std "string \<Rightarrow> bool" string
  | Custom "string option \<Rightarrow> request \<Rightarrow> string option"
  | San "string \<Rightarrow> string"

record chain =
  c_location :: location
  c_field :: string
  c_optional :: bool
  c_items :: "item list"

definition to_string :: "string option \<Rightarrow> string" where
  "to_string v = (case v of None \<Rightarrow> [] | Some s \<Rightarrow> s)"

fun run_items ::
  "location \<Rightarrow> string \<Rightarrow> request \<Rightarrow> item list \<Rightarrow> string option \<Rightarrow> verror list \<times> string option" where
  "run_items l f req [] v = ([], v)"
| "run_items l f req (San g # its) v = run_items l f req its (map_option g v)"
| "run_items l f req (Std p m # its) v =
     (let rest = run_items l f req its v
      in ((if p (to_string v) then []
           else [\<lparr>e_msg = m, e_path = f, e_value = v, e_location = l\<rparr>]) @ fst rest,
          snd rest))"
| "run_items l f req (Custom g # its) v =
     (let rest = run_items l f req its v
      in ((case g v req of
             None \<Rightarrow> []
           | Some m \<Rightarrow> [\<lparr>e_msg = m, e_path = f, e_value = v, e_location = l\<rparr>]) @ fst rest,
          snd rest))"

text \<open>Running one chain: an \<open>optional()\<close> chain is skipped for an \<open>undefined\<close> field;
  the sanitized value is written back to the request.\<close>

definition run_chain :: "request \<Rightarrow> chain \<Rightarrow> verror list \<times> request" where
  "run_chain req c =
     (let v = get_field req (c_location c) (c_field c)
      in if c_optional c \<and> v = None then ([], req)
         else (let res = run_items (c_location c) (c_field c) req (c_items c) v
               in (fst res,
                   case snd res of
                     None \<Rightarrow> req
                   | Some s \<Rightarrow> set_field req (c_location c) (c_field c) s)))"

fun run_chains :: "request \<Rightarrow> chain list \<Rightarrow> verror list \<times> request" where
  "run_chains req [] = ([], req)"
| "run_chains req (c # cs) =
     (let r1 = run_chain req c; r2 = run_chains (snd r1) cs
      in (fst r1 @ fst r2, snd r2))"

text \<open>\<open>validate\<close>: \<open>None\<close> is \<open>next()\<close>.\<close>

definition validate :: "verror list \<Rightarrow> response option" where
  "validate errors =
     (if errors \<noteq> []
      then Some \<lparr>res_status = UNPROCESSABLE_ENTITY,
                  res_body = JObj [(''success'', JBool False),
                                   (''message'', JStr (join '', '' (map e_msg errors))),
                                   (''errors'', JArr (map verror_json errors))]\<rparr>
      else None)"

text \<open>The validators of the library that the rule sets use.\<close>

definition isLength :: "nat \<Rightarrow> nat option \<Rightarrow> string \<Rightarrow> bool" where
  "isLength lo hi s = (lo \<le> length s \<and> (case hi of None \<Rightarrow> True | Some h \<Rightarrow> length s \<le> h))"

definition notEmpty :: "string \<Rightarrow> bool" where
  "notEmpty s = (s \<noteq> [])"

text \<open>\<open>matches(/[C]/)\<close> for a character class \<open>C\<close>.\<close>

definition matches_class :: "(char \<Rightarrow> bool) \<Rightarrow> string \<Rightarrow> bool" where
  "matches_class C s = (\<exists>c\<in>set s. C c)"

definition isIn :: "string list \<Rightarrow> string \<Rightarrow> bool" where
  "isIn vs s = (s \<in> set vs)"

definition is_hex :: "char \<Rightarrow> bool" where
  "is_hex c = (c \<in> set ''0123456789abcdefABCDEF'')"

definition isMongoId :: "string \<Rightarrow> bool" where
  "isMongoId s = (length s = 24 \<and> (\<forall>c\<in>set s. is_hex c))"

text \<open>\<open>isInt({min, max})\<close>: an optional sign, then \<open>0\<close> or digits without a leading
  zero; the number must lie within the bounds.\<close>

definition int_digits :: "string \<Rightarrow> bool" where
  "int_digits u = (u \<noteq> [] \<and> (\<forall>c\<in>set u. is_digit c) \<and> (u = ''0'' \<or> hd u \<noteq> CHR ''0''))"

definition isInt :: "nat \<Rightarrow> nat option \<Rightarrow> string \<Rightarrow> bool" where
  "isInt lo hi s =
     (case s of
        [] \<Rightarrow> False
      | c # cs \<Rightarrow>
          if c = CHR ''-'' then int_digits cs \<and> lo = 0 \<and> digits_val 0 cs = 0
          else (let u = (if c = CHR ''+'' then cs else s)
                in int_digits u \<and> lo \<le> digits_val 0 u
                   \<and> (case hi of None \<Rightarrow> True | Some h \<Rightarrow> digits_val 0 u \<le> h)))"

text \<open>The rule sets. In \<open>isEmail().normalizeEmail().withMessage(m)\<close> the message
  belongs to \<open>isEmail\<close>, the last validator before it.\<close>

definition username_rules :: "item list" where
  "username_rules =
     [San trim,
      Std (isLength 3 (Some 30)) ''Username must be between 3 and 30 characters'',
      Std matches_username
        ''Username can only contain letters, numbers, underscores, and hyphens'']"

definition email_rules :: "env \<Rightarrow> item list" where
  "email_rules e =
     [Std (isEmail e) ''Please provide a valid email address'', San (normalizeEmail e)]"

definition special_message :: string where
  "special_message =
     ''Password must contain at least one special character (!@#$%^&*(),.?''
       @ [CHR 0x22] @ '':{}|<>)''"

definition password_rules :: "item list" where
  "password_rules =
     [Std (isLength 8 None) ''Password must be at least 8 characters long'',
      Std (matches_class is_upper) ''Password must contain at least one uppercase letter'',
      Std (matches_class is_lower) ''Password must contain at least one lowercase letter'',
      Std (matches_class is_digit) ''Password must contain at least one number'',
      Std (matches_class is_special) special_message]"

definition signupValidation :: "env \<Rightarrow> chain list" where
  "signupValidation e =
     [\<lparr>c_location = Body, c_field = ''email'', c_optional = False, c_items = email_rules e\<rparr>,
      \<lparr>c_location = Body, c_field = ''username'', c_optional = False,
        c_items = username_rules\<rparr>,
      \<lparr>c_location = Body, c_field = ''password'', c_optional = False,
        c_items = password_rules\<rparr>,
      \<lparr>c_location = Body, c_field = ''confirmPassword'', c_optional = False,
        c_items =
          [Custom (\<lambda>v req. if v \<noteq> req_body req ''password''
                            then Some ''Passwords do not match'' else None)]\<rparr>]"

definition loginValidation :: "chain list" where
  "loginValidation =
     [\<lparr>c_location = Body, c_field = ''emailOrUsername'', c_optional = False,
        c_items = [San trim, Std notEmpty ''Email or username is required'']\<rparr>,
      \<lparr>c_location = Body, c_field = ''password'', c_optional = False,
        c_items = [Std notEmpty ''Password is required'']\<rparr>]"

definition updateProfileValidation :: "env \<Rightarrow> chain list" where
  "updateProfileValidation e =
     [\<lparr>c_location = Body, c_field = ''username'', c_optional = True, c_items = username_rules\<rparr>,
      \<lparr>c_location = Body, c_field = ''email'', c_optional = True, c_items = email_rules e\<rparr>,
      \<lparr>c_location = Body, c_field = ''password'', c_optional = True,
        c_items = [Std (isLength 8 None) ''Password must be at least 8 characters long'']\<rparr>]"

definition description_chain :: chain where
  "description_chain =
     \<lparr>c_location = Body, c_field = ''description'', c_optional = True,
      c_items = [San trim,
                 Std (isLength 0 (Some 2000)) ''Description cannot exceed 2000 characters'']\<rparr>"

definition status_chain :: "location \<Rightarrow> chain" where
  "status_chain l =
     \<lparr>c_location = l, c_field = ''status'', c_optional = True,
      c_items = [Std (isIn TASK_STATUS) status_message]\<rparr>"

definition id_chain :: chain where
  "id_chain =
     \<lparr>c_location = Params, c_field = ''id'', c_optional = False,
      c_items = [Std isMongoId ''Invalid task ID'']\<rparr>"

definition createTaskValidation :: "chain list" where
  "createTaskValidation =
     [\<lparr>c_location = Body, c_field = ''title'', c_optional = False,
        c_items = [San trim,
                   Std notEmpty ''Task title is required'',
                   Std (isLength 0 (Some 200)) ''Title cannot exceed 200 characters'']\<rparr>,
      description_chain,
      status_chain Body]"

definition updateTaskValidation :: "chain list" where
  "updateTaskValidation =
     [id_chain,
      \<lparr>c_location = Body, c_field = ''title'', c_optional = True,
        c_items = [San trim,
                   Std notEmpty ''Task title cannot be empty'',
                   Std (isLength 0 (Some 200)) ''Title cannot exceed 200 characters'']\<rparr>,
      description_chain,
      status_chain Body]"

definition taskIdValidation :: "chain list" where
  "taskIdValidation = [id_chain]"

definition taskQueryValidation :: "chain list" where
  "taskQueryValidation =
     [status_chain Query,
      \<lparr>c_location = Query, c_field = ''search'', c_optional = True,
        c_items = [San trim,
                   Std (isLength 1 (Some 100))
                     ''Search query must be between 1 and 100 characters'']\<rparr>,
      \<lparr>c_location = Query, c_field = ''page'', c_optional = True,
        c_items = [Std (isInt 1 None) ''Page must be a positive integer'']\<rparr>,
      \<lparr>c_location = Query, c_field = ''limit'', c_optional = True,
        c_items = [Std (isInt 1 (Some 100)) ''Limit must be between 1 and 100'']\<rparr>]"

section \<open>Routes\<close>

datatype endpoint =
    Signup | Login | GetProfile | UpdateProfile
  | GetTasks | CreateTask | GetTaskById | UpdateTask | DeleteTask

text \<open>The middleware of a route: \<open>protect\<close>, a rule set, \<open>validate\<close>, or the
  controller function.\<close>

datatype stage = Protect | Rules "chain list" | Validate | Handler endpoint

text \<open>
  \<open>authRoutes\<close> lists the middleware of each route; \<open>taskRoutes\<close> begins with
  \<open>router.use(protect)\<close>, which runs before the middleware of every task route.
\<close>

definition authRoutes :: "env \<Rightarrow> endpoint \<Rightarrow> stage list" where
  "authRoutes e ep =
     (case ep of
        Signup \<Rightarrow> [Rules (signupValidation e), Validate, Handler Signup]
      | Login \<Rightarrow> [Rules loginValidation, Validate, Handler Login]
      | GetProfile \<Rightarrow> [Protect, Handler GetProfile]
      | UpdateProfile \<Rightarrow>
          [Protect, Rules (updateProfileValidation e), Validate, Handler UpdateProfile]
      | _ \<Rightarrow> [])"

definition taskRoutes :: "endpoint \<Rightarrow> stage list" where
  "taskRoutes ep =
     Protect #
     (case ep of
        GetTasks \<Rightarrow> [Rules taskQueryValidation, Validate, Handler GetTasks]
      | CreateTask \<Rightarrow> [Rules createTaskValidation, Validate, Handler CreateTask]
      | GetTaskById \<Rightarrow> [Rules taskIdValidation, Validate, Handler GetTaskById]
      | UpdateTask \<Rightarrow> [Rules updateTaskValidation, Validate, Handler UpdateTask]
      | DeleteTask \<Rightarrow> [Rules taskIdValidation, Validate, Handler DeleteTask]
      | _ \<Rightarrow> [])"

definition routes :: "env \<Rightarrow> endpoint \<Rightarrow> stage list" where
  "routes e ep =
     (if ep \<in> set [Signup, Login, GetProfile, UpdateProfile]
      then authRoutes e ep else taskRoutes ep)"

text \<open>What the middleware has attached to the request so far.\<close>

record req_context =
  ctx_req :: request
  ctx_user :: "user option"
  ctx_errors :: "verror list"

text \<open>The route pattern \<open>/:id\<close> always binds \<open>req.params.id\<close>.\<close>

definition param_id :: "request \<Rightarrow> string" where
  "param_id req = to_string (req_params req ''id'')"

definition query_params :: "request \<Rightarrow> task_query_params" where
  "query_params req =
     \<lparr>q_status = req_query req ''status'', q_search = req_query req ''search'',
      q_page = req_query req ''page'', q_limit = req_query req ''limit''\<rparr>"

text \<open>
  The controller function of an endpoint. Reading \<open>req.user.id\<close> without a user
  attached is a \<open>TypeError\<close>.
\<close>

definition handle ::
  "env \<Rightarrow> store \<Rightarrow> endpoint \<Rightarrow> request \<Rightarrow> user option \<Rightarrow> response \<times> store" where
  "handle e st ep req ru =
     (case ep of
        Signup \<Rightarrow> signup e st (req_body req)
      | Login \<Rightarrow> login e st (req_body req)
      | _ \<Rightarrow>
          (case ru of
             None \<Rightarrow> (errorHandler (JsError ''Cannot read properties of undefined''), st)
           | Some u \<Rightarrow>
               (case ep of
                  GetProfile \<Rightarrow> getProfile st u
                | UpdateProfile \<Rightarrow> updateProfile e st u (req_body req)
                | GetTasks \<Rightarrow>
                    (getTasks (text_search e) (tasks st) (oid u) (query_params req), st)
                | CreateTask \<Rightarrow> createTask e st (oid u) (req_body req)
                | GetTaskById \<Rightarrow> getTaskById st (oid u) (param_id req)
                | UpdateTask \<Rightarrow> updateTask e st (oid u) (param_id req) (req_body req)
                | DeleteTask \<Rightarrow> deleteTask st (oid u) (param_id req)
                | _ \<Rightarrow> (errorHandler (JsError []), st))))"

text \<open>
  Express runs the middleware of a route in order until one of them answers. The
  result is the response, the store after it, and the middleware that ran.
\<close>

fun run :: "env \<Rightarrow> stage list \<Rightarrow> store \<Rightarrow> req_context \<Rightarrow> response \<times> store \<times> stage list" where
  "run e [] st c = (notFound [], st, [])"
| "run e (Protect # ss) st c =
     (case protect e (users st) (req_authorization (ctx_req c)) of
        Reject r \<Rightarrow> (r, st, [Protect])
      | Pass u \<Rightarrow>
          (let res = run e ss st (c\<lparr>ctx_user := Some u\<rparr>)
           in (fst res, fst (snd res), Protect # snd (snd res))))"
| "run e (Rules cs # ss) st c =
     (let v = run_chains (ctx_req c) cs;
          res = run e ss st (c\<lparr>ctx_req := snd v, ctx_errors := ctx_errors c @ fst v\<rparr>)
      in (fst res, fst (snd res), Rules cs # snd (snd res)))"
| "run e (Validate # ss) st c =
     (case validate (ctx_errors c) of
        Some r \<Rightarrow> (r, st, [Validate])
      | None \<Rightarrow>
          (let res = run e ss st c
           in (fst res, fst (snd res), Validate # snd (snd res))))"
| "run e (Handler ep # ss) st c =
     (let res = handle e st ep (ctx_req c) (ctx_user c)
      in (fst res, snd res, [Handler ep]))"

definition incoming :: "request \<Rightarrow> req_context" where
  "incoming req = \<lparr>ctx_req = req, ctx_user = None, ctx_errors = []\<rparr>"

text \<open>The API: the answer to a request for an endpoint.\<close>

definition api :: "env \<Rightarrow> store \<Rightarrow> endpoint \<Rightarrow> request \<Rightarrow> response \<times> store \<times> stage list" where
  "api e st ep req = run e (routes e ep) st (incoming req)"

section \<open>Notions of the statements\<close>


text \<open>The rules of a route.\<close>

fun stage_rules :: "stage list \<Rightarrow> chain list" where
  "stage_rules [] = []"
| "stage_rules (Rules cs # ss) = cs @ stage_rules ss"
| "stage_rules (_ # ss) = stage_rules ss"

text \<open>The store with every stored password hash replaced (by \<open>g\<close> of the user).\<close>

definition with_passwords :: "(user \<Rightarrow> string option) \<Rightarrow> store \<Rightarrow> store" where
  "with_passwords g st = st\<lparr>users := map (\<lambda>u. u\<lparr>password := g u\<rparr>) (users st)\<rparr>"


section \<open>Sample data\<close>

definition sample_task :: "nat \<Rightarrow> task" where
  "sample_task i =
     \<lparr>oid = replicate (Suc i) CHR ''a'', createdAt = i, updatedAt = i,
      title = ''Write report'', description = [], status = ''todo'', userId = ''u1''\<rparr>"

definition sample_page_query :: task_query_params where
  "sample_page_query =
     \<lparr>q_status = None, q_search = None, q_page = Some ''2'', q_limit = Some ''10''\<rparr>"

text \<open>A toy token codec, an environment, and a registered user, for concrete runs.\<close>

definition sample_encode :: "jwt \<Rightarrow> string" where
  "sample_encode t =
     jwt_key t @ ''.'' @ jwt_id t @ ''.'' @ replicate (iat t) CHR ''i'' @ ''.''
       @ replicate (exp t) CHR ''x''"

definition sample_decode :: "string \<Rightarrow> jwt option" where
  "sample_decode s =
     (case split CHR ''.'' s of
        [k, i, a, b] \<Rightarrow> Some \<lparr>jwt_id = i, iat = length a, exp = length b, jwt_key = k\<rparr>
      | _ \<Rightarrow> None)"

definition sample_env :: "nat \<Rightarrow> env" where
  "sample_env now =
     \<lparr>JWT_SECRET = ''secret'', JWT_EXPIRES_IN = Some 1, clock = now,
      jwt_encode = sample_encode, jwt_decode = sample_decode,
      bcrypt_hash = (\<lambda>p. ''$2a$10$'' @ p),
      bcrypt_compare = (\<lambda>p h. h = ''$2a$10$'' @ p),
      text_search = (\<lambda>s t. True),
      isEmail = matches_email, normalizeEmail = toLowerCase,
      new_oid = ''n1''\<rparr>"

definition alice :: user where
  "alice = \<lparr>oid = ''u1'', createdAt = 1, updatedAt = 1, username = ''alice'',
            email = ''alice@example.com'', password = Some ''$2a$10$Passw0rd!''\<rparr>"

definition bob :: user where
  "bob = \<lparr>oid = ''u2'', createdAt = 2, updatedAt = 2, username = ''bob'',
          email = ''bob@example.com'', password = Some ''$2a$10$S3cret#pw''\<rparr>"

definition sample_store :: store where
  "sample_store = \<lparr>users = [alice, bob], tasks = [sample_task 0, sample_task 1]\<rparr>"

definition empty_store :: store where
  "empty_store = \<lparr>users = [], tasks = []\<rparr>"

definition signup_body :: "string \<Rightarrow> string \<Rightarrow> string \<Rightarrow> (string \<rightharpoonup> string)" where
  "signup_body em un pw =
     [''email'' \<mapsto> em, ''username'' \<mapsto> un, ''password'' \<mapsto> pw, ''confirmPassword'' \<mapsto> pw]"


definition carol :: user where
  "carol = \<lparr>oid = ''u3'', createdAt = 3, updatedAt = 3, username = ''carol'',
            email = ''carol@example.com'', password = Some ''$2a$10$0ther#Pass''\<rparr>"

definition three_users :: store where
  "three_users = \<lparr>users = [alice, bob, carol], tasks = []\<rparr>"

definition profile_body :: "string \<Rightarrow> string \<Rightarrow> (string \<rightharpoonup> string)" where
  "profile_body un em = [''username'' \<mapsto> un, ''email'' \<mapsto> em]"


text \<open>A request to update a task that carries no \<open>Authorization\<close> header, an
  ill-formed id and an unknown status; the same request with a token of the first user;
  and a request of the first user without parameters.\<close>

definition anonymous_bad_update :: request where
  "anonymous_bad_update =
     \<lparr>req_authorization = None,
      req_body = [''status'' \<mapsto> ''bogus''],
      req_params = [''id'' \<mapsto> ''x''],
      req_query = Map.empty\<rparr>"

definition alice_bad_update :: request where
  "alice_bad_update = anonymous_bad_update\<lparr>req_authorization := Some ''Bearer secret.u1.iii.xxxx''\<rparr>"

definition alice_request :: request where
  "alice_request =
     \<lparr>req_authorization = Some ''Bearer secret.u1.iii.xxxx'',
      req_body = Map.empty, req_params = Map.empty, req_query = Map.empty\<rparr>"

section \<open>Constants\<close>

lemmas STATUS_CODES =
  OK_def CREATED_def BAD_REQUEST_def UNAUTHORIZED_def NOT_FOUND_def CONFLICT_def
  UNPROCESSABLE_ENTITY_def INTERNAL_SERVER_ERROR_def

lemmas ERROR_MESSAGES =
  INVALID_CREDENTIALS_def USER_NOT_FOUND_def UNAUTHORIZED_ACCESS_def INVALID_TOKEN_def
  TASK_NOT_FOUND_def SERVER_ERROR_def

section \<open>Pagination of the task list\<close>

lemma ceil_div_least:
  fixes n l k :: nat
  assumes "0 < l"
  shows "((n + l - Suc 0) div l \<le> k) = (n \<le> k * l)"
proof -
  have "(n + l - 1) div l \<le> k \<longleftrightarrow> n + l - 1 < (k + 1) * l"
    using assms
    by (metis Suc_eq_plus1 less_Suc_eq_le div_less_iff_less_mult less_mult_imp_div_less
        mult.commute not_less)
  also have "\<dots> \<longleftrightarrow> n \<le> k * l"
    using assms by (cases l) auto
  finally show ?thesis by simp
qed

lemma length_newest_first: "length (newest_first xs) = length xs"
  by (simp add: newest_first_def)

text \<open>
  C7. A list request with \<open>page\<close> and \<open>limit\<close> both given (strings that
  \<open>parseInt\<close> reads as positive integers, as the query validator demands), in the
  range where JavaScript's arithmetic on them is exact (the page, the number of skipped
  tasks \<open>(page - 1) * limit\<close> and the size of the collection below \<open>2^53\<close>), is answered
  200 with the page slice of the owner's matching tasks, newest first, and with
  pagination metadata computed from the count over the same filter:
  \<open>totalItems\<close> is that count \<open>n\<close>, \<open>totalPages\<close> is \<open>ceil(n / limit)\<close> (the least
  \<open>k\<close> with \<open>n \<le> k * limit\<close>), \<open>itemsPerPage = limit\<close>, \<open>currentPage = page\<close>,
  \<open>hasNextPage\<close> iff \<open>page < totalPages\<close>, \<open>hasPrevPage\<close> iff \<open>1 < page\<close>. With 25
  matching tasks, \<open>page=2\<close> and \<open>limit=10\<close> the response has exactly 10 items,
  \<open>currentPage=2\<close>, \<open>totalPages=3\<close>, \<open>hasNextPage=true\<close>, \<open>hasPrevPage=true\<close>.
\<close>

theorem getTasks_pagination:
  assumes "q_page q = Some p" and "q_limit q = Some l"
    and "parseInt p = Num page" and "parseInt l = Num limit"
    and "1 \<le> page" and "1 \<le> limit"
    and "page < 2 ^ 53" and "(page - 1) * limit < 2 ^ 53" and "length db < 2 ^ 53"
  shows "let matching = filter (task_query txt uid (build_filters q)) db;
             n = length matching;
             totalPages = (n + limit - 1) div limit;
             r = getTasks txt db uid q
         in res_status r = 200
          \<and> (\<forall>k. totalPages \<le> k \<longleftrightarrow> n \<le> k * limit)
          \<and> field ''data'' (res_body r) =
              Some (JArr (map task_toJSON
                (take limit (drop ((page - 1) * limit) (newest_first matching)))))
          \<and> field ''pagination'' (res_body r) =
              Some (JObj [(''currentPage'', JNum page),
                          (''totalPages'', JNum totalPages),
                          (''totalItems'', JNum n),
                          (''itemsPerPage'', JNum limit),
                          (''hasNextPage'', JBool (page < totalPages)),
                          (''hasPrevPage'', JBool (1 < page))])
          \<and> (n = 25 \<and> page = 2 \<and> limit = 10 \<longrightarrow>
               (\<exists>items. field ''data'' (res_body r) = Some (JArr items) \<and> length items = 10)
               \<and> field ''pagination'' (res_body r) =
                   Some (JObj [(''currentPage'', JNum 2),
                               (''totalPages'', JNum 3),
                               (''totalItems'', JNum 25),
                               (''itemsPerPage'', JNum 10),
                               (''hasNextPage'', JBool True),
                               (''hasPrevPage'', JBool True)]))"
proof -
  have p: "p \<noteq> []" "l \<noteq> []"
    using assms(3,4) by (auto simp: parseInt_def)
  have c: "((n + limit - Suc 0) div limit \<le> k) = (n \<le> k * limit)" for n k
    using ceil_div_least [of limit n k] assms(6) by simp
  show ?thesis
    using assms p
    by (simp add: Let_def getTasks_def sendPaginatedResponse_def findByUser_def
        countByUser_def OK_def c length_newest_first)
qed

lemma sample_tasks_match:
  "filter (task_query txt ''u1'' (build_filters sample_page_query)) (map sample_task xs)
     = map sample_task xs"
  by (induction xs) (simp_all add: task_query_def build_filters_def sample_page_query_def
      sample_task_def)

lemma to_double_exact: "n < 2 ^ 53 \<Longrightarrow> to_double n = Num n"
  by (simp add: to_double_def)

lemma parseInt_samples: "parseInt ''2'' = Num 2" "parseInt ''10'' = Num 10"
  by (simp_all add: parseInt_def digit_val_def is_space_def to_double_exact)

text \<open>Beyond \<open>2^53\<close> the page number that the handler works with, and reports as
  \<open>currentPage\<close>, is the rounded one.\<close>

lemma parseInt_rounds: "parseInt ''9007199254740993'' = Num 9007199254740992"
  by (simp add: parseInt_def digit_val_def is_space_def to_double_def Let_def)

theorem getTasks_pagination_witness:
  "let db = map sample_task [0..<25];
       r = getTasks (\<lambda>s t. True) db ''u1'' sample_page_query
   in length (filter (task_query (\<lambda>s t. True) ''u1'' (build_filters sample_page_query)) db) = 25
    \<and> parseInt ''2'' = Num 2 \<and> parseInt ''10'' = Num 10
    \<and> length db < 2 ^ 53
    \<and> res_status r = 200
    \<and> (\<exists>items. field ''data'' (res_body r) = Some (JArr items) \<and> length items = 10)
    \<and> field ''pagination'' (res_body r) =
        Some (JObj [(''currentPage'', JNum 2),
                    (''totalPages'', JNum 3),
                    (''totalItems'', JNum 25),
                    (''itemsPerPage'', JNum 10),
                    (''hasNextPage'', JBool True),
                    (''hasPrevPage'', JBool True)])"
proof -
  define db where "db = map sample_task [0..<25]"
  have q: "q_page sample_page_query = Some ''2''" "q_limit sample_page_query = Some ''10''"
    by (simp_all add: sample_page_query_def)
  have n: "length (filter (task_query (\<lambda>s t. True) ''u1'' (build_filters sample_page_query))
             db) = 25"
    unfolding db_def sample_tasks_match by simp
  have b: "(2::nat) < 2 ^ 53" "(2 - 1) * 10 < (2::nat) ^ 53" "length db < 2 ^ 53"
    by (simp_all add: db_def)
  have "let r = getTasks (\<lambda>s t. True) db ''u1'' sample_page_query
   in length (filter (task_query (\<lambda>s t. True) ''u1'' (build_filters sample_page_query)) db) = 25
    \<and> parseInt ''2'' = Num 2 \<and> parseInt ''10'' = Num 10
    \<and> length db < 2 ^ 53
    \<and> res_status r = 200
    \<and> (\<exists>items. field ''data'' (res_body r) = Some (JArr items) \<and> length items = 10)
    \<and> field ''pagination'' (res_body r) =
        Some (JObj [(''currentPage'', JNum 2),
                    (''totalPages'', JNum 3),
                    (''totalItems'', JNum 25),
                    (''itemsPerPage'', JNum 10),
                    (''hasNextPage'', JBool True),
                    (''hasPrevPage'', JBool True)])"
    using getTasks_pagination [OF q parseInt_samples _ _ b, of "\<lambda>s t. True" "''u1''"]
      n parseInt_samples b(3)
    by (simp add: Let_def length_newest_first)
  then show ?thesis
    by (simp only: db_def Let_def)
qed

section \<open>The authorization gate\<close>

lemma split_no_sep: "c \<notin> set s \<Longrightarrow> split c s = [s]"
  by (induction s) auto

lemma bearer_token:
  "CHR '' '' \<notin> set s \<Longrightarrow> second (split CHR '' '' (''Bearer '' @ s)) = Some s"
  by (simp add: split_no_sep second_def)

lemma protect_status: "protect e us h = Reject r \<Longrightarrow> res_status r = 401"
  by (auto simp: protect_def sendError_def UNAUTHORIZED_def Let_def
      split: if_splits sum.splits option.splits)

text \<open>
  C3. \<open>protect\<close> answers the request itself, and then always with 401, exactly when
  no bearer header is presented (the header is missing, empty or does not start with
  \<open>Bearer\<close>), or the token (the header's second space-separated part) fails
  \<open>jwt.verify\<close>, or the verified token's user id finds no user. Otherwise it calls
  \<open>next()\<close> with \<open>req.user\<close> set to that user, loaded without the password. A token
  issued with a lifetime of one second and presented two seconds later is rejected
  with 401, "Token has expired".
\<close>

theorem protect_rejects_exactly:
  "let presented = (truthy h \<and> startsWith (the h) ''Bearer'');
       verified = jwt_verify e (second (split CHR '' '' (the h))) (JWT_SECRET e)
   in ((\<exists>r. protect e us h = Reject r) \<longleftrightarrow>
         (\<not> presented \<or> (\<exists>err. verified = Inl err)
          \<or> (\<exists>t. verified = Inr t \<and> find (\<lambda>u. oid u = jwt_id t) us = None)))
    \<and> (\<forall>r. protect e us h = Reject r \<longrightarrow> res_status r = 401)
    \<and> (\<forall>u. protect e us h = Pass u \<longrightarrow>
          password u = None
          \<and> (\<exists>t u0. verified = Inr t \<and> find (\<lambda>u. oid u = jwt_id t) us = Some u0
                \<and> u = u0\<lparr>password := None\<rparr>))
    \<and> (\<forall>e0 i s. s = jwt_sign e0 i (JWT_SECRET e) 1
          \<and> jwt_decode e s =
              Some \<lparr>jwt_id = i, iat = clock e0, exp = clock e0 + 1, jwt_key = JWT_SECRET e\<rparr>
          \<and> CHR '' '' \<notin> set s \<and> s \<noteq> [] \<and> clock e = clock e0 + 2
          \<and> h = Some (''Bearer '' @ s)
          \<longrightarrow> protect e us h = Reject (sendError 401 ''Token has expired''))"
  unfolding Let_def
proof (intro conjI allI impI)
  show "(\<exists>r. protect e us h = Reject r) \<longleftrightarrow>
         (\<not> (truthy h \<and> startsWith (the h) ''Bearer'')
          \<or> (\<exists>err. jwt_verify e (second (split CHR '' '' (the h))) (JWT_SECRET e) = Inl err)
          \<or> (\<exists>t. jwt_verify e (second (split CHR '' '' (the h))) (JWT_SECRET e) = Inr t
                \<and> find (\<lambda>u. oid u = jwt_id t) us = None))"
    by (auto simp: protect_def findById_def Let_def split: sum.splits option.splits)
next
  fix r assume "protect e us h = Reject r"
  then show "res_status r = 401" by (rule protect_status)
next
  fix u assume "protect e us h = Pass u"
  then show "password u = None"
    by (auto simp: protect_def findById_def Let_def split: if_splits sum.splits option.splits)
next
  fix u assume "protect e us h = Pass u"
  then show "\<exists>t u0. jwt_verify e (second (split CHR '' '' (the h))) (JWT_SECRET e) = Inr t
                \<and> find (\<lambda>u. oid u = jwt_id t) us = Some u0 \<and> u = u0\<lparr>password := None\<rparr>"
    by (auto simp: protect_def findById_def Let_def split: if_splits sum.splits option.splits)
next
  fix e0 i s
  assume "s = jwt_sign e0 i (JWT_SECRET e) 1
          \<and> jwt_decode e s =
              Some \<lparr>jwt_id = i, iat = clock e0, exp = clock e0 + 1, jwt_key = JWT_SECRET e\<rparr>
          \<and> CHR '' '' \<notin> set s \<and> s \<noteq> [] \<and> clock e = clock e0 + 2
          \<and> h = Some (''Bearer '' @ s)"
  then have ns: "CHR '' '' \<notin> set s" and hh: "h = Some (''Bearer '' @ s)" and ne: "s \<noteq> []"
    and dec: "jwt_decode e s =
      Some \<lparr>jwt_id = i, iat = clock e0, exp = clock e0 + 1, jwt_key = JWT_SECRET e\<rparr>"
    and clk: "clock e = clock e0 + 2"
    by blast+
  have tok: "second (split CHR '' '' (the h)) = Some s"
    unfolding hh option.sel by (rule bearer_token [OF ns])
  have "jwt_verify e (Some s) (JWT_SECRET e) = Inl TokenExpiredError"
    using ne dec clk by (simp add: jwt_verify_def)
  then show "protect e us h = Reject (sendError 401 ''Token has expired'')"
    using tok by (simp add: hh protect_def startsWith_def protect_message_def UNAUTHORIZED_def)
qed

lemma sample_token: "jwt_sign (sample_env 3) ''u1'' ''secret'' 1 = ''secret.u1.iii.xxxx''"
  by code_simp

lemma sample_token_decoded:
  "sample_decode ''secret.u1.iii.xxxx''
     = Some \<lparr>jwt_id = ''u1'', iat = 3, exp = 4, jwt_key = ''secret''\<rparr>"
  by (simp add: sample_decode_def)

theorem protect_rejects_exactly_witness:
  "protect (sample_env 5) [alice] (Some ''Bearer secret.u1.iii.xxxx'')
     = Reject (sendError 401 ''Token has expired'')
   \<and> protect (sample_env 3) [alice] (Some ''Bearer secret.u1.iii.xxxx'')
     = Pass (alice\<lparr>password := None\<rparr>)"
proof -
  have 1: "protect (sample_env 5) [alice] (Some ''Bearer secret.u1.iii.xxxx'')
     = Reject (sendError 401 ''Token has expired'')"
    using protect_rejects_exactly
      [of "Some ''Bearer secret.u1.iii.xxxx''" "sample_env 5" "[alice]", unfolded Let_def,
       THEN conjunct2, THEN conjunct2, THEN conjunct2, rule_format,
       of "''secret.u1.iii.xxxx''" "sample_env 3" "''u1''"]
      sample_token sample_token_decoded
    by (simp add: sample_env_def)
  have v: "jwt_verify (sample_env 3)
             (second (split CHR '' '' (the (Some ''Bearer secret.u1.iii.xxxx''))))
             (JWT_SECRET (sample_env 3))
     = Inr \<lparr>jwt_id = ''u1'', iat = 3, exp = 4, jwt_key = ''secret''\<rparr>"
    using sample_token_decoded by (simp add: jwt_verify_def second_def sample_env_def)
  have 2: "protect (sample_env 3) [alice] (Some ''Bearer secret.u1.iii.xxxx'')
     = Pass (alice\<lparr>password := None\<rparr>)"
  proof (cases "protect (sample_env 3) [alice] (Some ''Bearer secret.u1.iii.xxxx'')")
    case (Reject r)
    then show ?thesis
      using protect_rejects_exactly
        [of "Some ''Bearer secret.u1.iii.xxxx''" "sample_env 3" "[alice]"] v
      unfolding Let_def by (auto simp: startsWith_def alice_def)
  next
    case (Pass u)
    then show ?thesis
      using protect_rejects_exactly
        [of "Some ''Bearer secret.u1.iii.xxxx''" "sample_env 3" "[alice]"] v
      unfolding Let_def by (auto simp: startsWith_def alice_def)
  qed
  from 1 2 show ?thesis by simp
qed

section \<open>Ownership of tasks\<close>

lemma distinct_oid_eq:
  "distinct (map oid ts) \<Longrightarrow> t \<in> set ts \<Longrightarrow> t' \<in> set ts \<Longrightarrow> oid t' = oid t \<Longrightarrow> t' = t"
  by (meson distinct_map inj_on_def)

lemma findOneTask_other_owner:
  assumes "t \<in> set ts" and "distinct (map oid ts)" and "userId t \<noteq> B"
  shows "findOneTask ts (oid t) B = None"
  using assms distinct_oid_eq [OF assms(2,1)]
  by (auto simp: findOneTask_def find_None_iff)

lemma findOneTask_missing:
  "ident \<notin> oid ` set ts \<Longrightarrow> findOneTask ts ident B = None"
  by (auto simp: findOneTask_def find_None_iff)

text \<open>
  C1. Task ids are unique in the collection (the \<open>_id\<close> index). For a task \<open>t\<close> owned
  by \<open>A\<close> and any other user \<open>B\<close>, \<open>getTaskById\<close>, \<open>updateTask\<close> (with any patch)
  and \<open>deleteTask\<close> called for \<open>B\<close> with \<open>t\<close>'s id answer 404 "Task not found" and
  leave the store as it was: exactly what they answer for an id that no task has.
\<close>

theorem task_of_other_owner_not_found:
  assumes "t \<in> set (tasks st)" and "distinct (map oid (tasks st))"
    and "userId t = A" and "B \<noteq> A"
  shows "getTaskById st B (oid t) = (sendError 404 ''Task not found'', st)
       \<and> updateTask e st B (oid t) patch = (sendError 404 ''Task not found'', st)
       \<and> deleteTask st B (oid t) = (sendError 404 ''Task not found'', st)
       \<and> (\<forall>ident. ident \<notin> oid ` set (tasks st) \<longrightarrow>
             getTaskById st B ident = getTaskById st B (oid t)
           \<and> updateTask e st B ident patch = updateTask e st B (oid t) patch
           \<and> deleteTask st B ident = deleteTask st B (oid t))"
proof -
  have "findOneTask (tasks st) (oid t) B = None"
    using assms by (intro findOneTask_other_owner) auto
  then show ?thesis
    by (auto simp: getTaskById_def updateTask_def deleteTask_def findOneTask_missing
        NOT_FOUND_def TASK_NOT_FOUND_def)
qed

lemma sample_distinct: "distinct (map oid (tasks sample_store))"
  by (simp add: sample_store_def sample_task_def)

theorem task_of_other_owner_not_found_witness:
  "getTaskById sample_store ''u2'' ''a'' = (sendError 404 ''Task not found'', sample_store)
   \<and> updateTask (sample_env 7) sample_store ''u2'' ''a'' [''title'' \<mapsto> ''mine''] = (sendError 404 ''Task not found'', sample_store)
   \<and> deleteTask sample_store ''u2'' ''a'' = (sendError 404 ''Task not found'', sample_store)
   \<and> getTaskById sample_store ''u2'' ''zz'' = getTaskById sample_store ''u2'' ''a''
   \<and> fst (getTaskById sample_store ''u1'' ''a'') = \<lparr>res_status = 200, res_body = task_toJSON (sample_task 0)\<rparr>"
proof -
  have m: "sample_task 0 \<in> set (tasks sample_store)" by (simp add: sample_store_def)
  have o: "userId (sample_task 0) = ''u1''" "''u2'' \<noteq> ''u1''" "oid (sample_task 0) = ''a''"
    by (simp_all add: sample_task_def)
  have z: "''zz'' \<notin> oid ` set (tasks sample_store)"
    by (simp add: sample_store_def sample_task_def)
  have own: "fst (getTaskById sample_store ''u1'' ''a'') = \<lparr>res_status = 200, res_body = task_toJSON (sample_task 0)\<rparr>"
    by (simp add: getTaskById_def findOneTask_def sample_store_def sample_task_def OK_def)
  show ?thesis
    using task_of_other_owner_not_found [OF m sample_distinct o(1,2), of "sample_env 7" "[''title'' \<mapsto> ''mine'']"] z own
    unfolding o(3) by blast
qed

section \<open>Partial update of a task\<close>

lemma find_Some_mem: "find P xs = Some x \<Longrightarrow> x \<in> set xs \<and> P x"
  by (induction xs) (auto split: if_splits)

lemma map_replace_self:
  assumes "distinct (map oid ts)" and "t \<in> set ts"
  shows "map (\<lambda>x. if oid x = oid t then t else x) ts = ts"
proof -
  have "\<forall>x\<in>set ts. (if oid x = oid t then t else x) = x"
    using distinct_oid_eq [OF assms] by auto
  then show ?thesis by (simp add: map_idI)
qed

lemma assign_patch_frame:
  "oid (assign_patch t body) = oid t" "userId (assign_patch t body) = userId t"
  "createdAt (assign_patch t body) = createdAt t" "updatedAt (assign_patch t body) = updatedAt t"
  "title (assign_patch t body) = (case body ''title'' of None \<Rightarrow> title t | Some v \<Rightarrow> trim v)"
  "description (assign_patch t body) = (case body ''description'' of None \<Rightarrow> description t | Some v \<Rightarrow> trim v)"
  "status (assign_patch t body) = (case body ''status'' of None \<Rightarrow> status t | Some v \<Rightarrow> v)"
  by (simp_all add: assign_patch_def Let_def split: option.splits)

text \<open>
  C8. \<open>updateTask\<close> for an owned task: the stored task afterwards differs from the one
  before at most in the patched fields. Its id, owner and creation timestamp are the
  same, and each of \<open>title\<close>, \<open>description\<close>, \<open>status\<close> that is absent from the patch
  is the same; on success each one present has the patch's value (trimmed by the
  schema setter for \<open>title\<close> and \<open>description\<close>) and the response is the updated task.
  Every other task and every user is untouched, and a failed update changes nothing.
  The update timestamp, which the schema's \<open>timestamps\<close> option maintains and no patch
  carries, is either the old one or the time of the save.
\<close>

theorem updateTask_frame:
  assumes "distinct (map oid (tasks st))"
    and "findOneTask (tasks st) ident uid = Some t"
    and "updateTask e st uid ident body = (r, st')"
  shows "\<exists>t'. tasks st' = map (\<lambda>x. if oid x = ident then t' else x) (tasks st)
            \<and> users st' = users st
            \<and> t' \<in> set (tasks st')
            \<and> oid t' = oid t \<and> userId t' = userId t \<and> createdAt t' = createdAt t
            \<and> (body ''title'' = None \<longrightarrow> title t' = title t)
            \<and> (body ''description'' = None \<longrightarrow> description t' = description t)
            \<and> (body ''status'' = None \<longrightarrow> status t' = status t)
            \<and> (updatedAt t' = updatedAt t \<or> updatedAt t' = clock e)
            \<and> (res_status r = 200 \<longrightarrow>
                  res_body r = task_toJSON t'
                \<and> (\<forall>v. body ''title'' = Some v \<longrightarrow> title t' = trim v)
                \<and> (\<forall>v. body ''description'' = Some v \<longrightarrow> description t' = trim v)
                \<and> (\<forall>v. body ''status'' = Some v \<longrightarrow> status t' = v))
            \<and> (res_status r \<noteq> 200 \<longrightarrow> st' = st)"
proof -
  from assms(2) have mem: "t \<in> set (tasks st)" and id: "oid t = ident" and own: "userId t = uid"
    using find_Some_mem [of _ "tasks st" t] by (auto simp: findOneTask_def)
  have self: "map (\<lambda>x. if oid x = ident then t else x) (tasks st) = tasks st"
    using map_replace_self [OF assms(1) mem] id by simp
  let ?d = "assign_patch t body"
  show ?thesis
  proof (cases "task_save e (tasks st) t ?d")
    case (Inl err)
    then have "st' = st" and "res_status r \<noteq> 200"
      using assms(2,3) by (cases err; auto simp: updateTask_def sendError_def STATUS_CODES)+
    then show ?thesis
      using self mem by (intro exI [of _ t]) simp
  next
    case (Inr p)
    obtain ts' saved where p: "p = (ts', saved)" by (cases p)
    have r: "r = \<lparr>res_status = OK, res_body = task_toJSON saved\<rparr>" and st': "st' = st\<lparr>tasks := ts'\<rparr>"
      using assms(2,3) Inr p by (auto simp: updateTask_def)
    show ?thesis
    proof (cases "title ?d = title t \<and> description ?d = description t \<and> status ?d = status t")
      case True
      then have "?d = t"
        by (cases t; cases ?d) (use assign_patch_frame(1-4) [of t body] in auto)
      moreover have "ts' = tasks st" "saved = ?d"
        using Inr p True by (auto simp: task_save_def Let_def split: if_splits)
      ultimately have "saved = t" "st' = st"
        using st' by auto
      then show ?thesis
        using r self mem True
        by (intro exI [of _ t]) (auto simp: assign_patch_frame OK_def split: option.splits)
    next
      case False
      let ?t' = "?d\<lparr>updatedAt := clock e\<rparr>"
      have sv: "saved = ?t'"
        and ts': "ts' = map (\<lambda>x. if oid x = oid ?d
                             then x\<lparr>title := (if title ?d \<noteq> title t then title ?d else title x),
                                    description := (if description ?d \<noteq> description t then description ?d
                                                    else description x),
                                    status := (if status ?d \<noteq> status t then status ?d else status x),
                                    updatedAt := clock e\<rparr>
                             else x) (tasks st)"
        using Inr p False by (auto simp: task_save_def Let_def split: if_splits)
      have upd: "t\<lparr>title := (if title ?d \<noteq> title t then title ?d else title t),
                                    description := (if description ?d \<noteq> description t then description ?d
                                                    else description t),
                                    status := (if status ?d \<noteq> status t then status ?d else status t),
                                    updatedAt := clock e\<rparr> = ?t'"
        by (cases t; cases ?d) (use assign_patch_frame(1-4) [of t body] in auto)
      have "ts' = map (\<lambda>x. if oid x = ident then ?t' else x) (tasks st)"
        unfolding ts'
      proof (rule map_cong [OF refl])
        fix x assume x: "x \<in> set (tasks st)"
        show "(if oid x = oid ?d
                             then x\<lparr>title := (if title ?d \<noteq> title t then title ?d else title x),
                                    description := (if description ?d \<noteq> description t then description ?d
                                                    else description x),
                                    status := (if status ?d \<noteq> status t then status ?d else status x),
                                    updatedAt := clock e\<rparr>
                             else x) = (if oid x = ident then ?t' else x)"
        proof (cases "oid x = ident")
          case True
          then have "x = t" using distinct_oid_eq [OF assms(1) mem x] id by simp
          then show ?thesis using True upd id by (simp add: assign_patch_frame)
        next
          case False
          then show ?thesis using id by (simp add: assign_patch_frame)
        qed
      qed
      moreover have "?t' \<in> set (map (\<lambda>x. if oid x = ident then ?t' else x) (tasks st))"
        using mem id by force
      ultimately show ?thesis
        using r st' sv id
        by (intro exI [of _ ?t']) (auto simp: assign_patch_frame OK_def split: option.splits)
    qed
  qed
qed

lemma sample_update: "\<exists>b s. updateTask (sample_env 7) sample_store ''u1'' ''a'' [''status'' \<mapsto> ''completed'']
    = (\<lparr>res_status = 200, res_body = b\<rparr>, s)"
  by (simp add: updateTask_def findOneTask_def sample_store_def sample_task_def task_save_def assign_patch_def
    validate_status_def TASK_STATUS_def OK_def Let_def)

theorem updateTask_frame_witness:
  "distinct (map oid (tasks sample_store))
   \<and> findOneTask (tasks sample_store) ''a'' ''u1'' = Some (sample_task 0)
   \<and> (\<exists>r st' t'. updateTask (sample_env 7) sample_store ''u1'' ''a'' [''status'' \<mapsto> ''completed''] = (r, st')
        \<and> res_status r = 200 \<and> tasks st' = [t', sample_task 1]
        \<and> status t' = ''completed'' \<and> title t' = ''Write report'' \<and> description t' = []
        \<and> userId t' = ''u1'' \<and> createdAt t' = 0 \<and> oid t' = ''a'')"
proof -
  have f: "findOneTask (tasks sample_store) ''a'' ''u1'' = Some (sample_task 0)"
    by (simp add: findOneTask_def sample_store_def sample_task_def)
  obtain b s where u: "updateTask (sample_env 7) sample_store ''u1'' ''a'' [''status'' \<mapsto> ''completed'']
    = (\<lparr>res_status = 200, res_body = b\<rparr>, s)"
    using sample_update by blast
  from updateTask_frame [OF sample_distinct f u]
  obtain t' where "tasks s = map (\<lambda>x. if oid x = ''a'' then t' else x) (tasks sample_store)"
    "oid t' = oid (sample_task 0)" "userId t' = userId (sample_task 0)" "createdAt t' = createdAt (sample_task 0)"
    "title t' = title (sample_task 0)" "description t' = description (sample_task 0)" "status t' = ''completed''"
    by auto
  then have "tasks s = [t', sample_task 1]
        \<and> status t' = ''completed'' \<and> title t' = ''Write report'' \<and> description t' = []
        \<and> userId t' = ''u1'' \<and> createdAt t' = 0 \<and> oid t' = ''a''"
    by (simp add: sample_store_def sample_task_def)
  with u f sample_distinct show ?thesis by auto
qed

section \<open>Registration conflicts\<close>

lemma find_Some_iff_ex: "(\<exists>x. find P xs = Some x) \<longleftrightarrow> (\<exists>x\<in>set xs. P x)"
  by (induction xs) auto

lemma errorHandler_status:
  "res_status (errorHandler err) \<in> {422, 409, 400, 500}"
  by (cases err) (simp_all add: sendError_def STATUS_CODES)

lemma signup_conflict_present:
  assumes "u \<in> set (users st)" and "body ''username'' = Some un"
    and "(\<exists>em. body ''email'' = Some em \<and> email u = user_cast em)
         \<or> username u = user_cast (toLowerCase un)"
  shows "res_status (fst (signup e st body)) = 409 \<and> snd (signup e st body) = st"
proof -
  let ?P = "\<lambda>u. (body ''email'' \<noteq> None \<and> email u = user_cast (the (body ''email'')))
                  \<or> username u = user_cast (toLowerCase un)"
  have "\<exists>x\<in>set (users st). ?P x" using assms(1,3) by auto
  then obtain x where "find ?P (users st) = Some x"
    using find_Some_iff_ex [of ?P "users st"] by blast
  then show ?thesis
    using assms(2) by (simp add: signup_def Let_def sendError_def CONFLICT_def)
qed

lemma cat_options_Nil: "cat_options xs = [] \<longleftrightarrow> (\<forall>x\<in>set xs. x = None)"
  by (induction xs rule: cat_options.induct) auto

lemma user_create_Inr:
  assumes "user_create e us em un pw = Inr (us', u)"
  shows "us' = us @ [u] \<and> (\<exists>un0. un = Some un0 \<and> username u = user_cast un0)
           \<and> (\<exists>em0. em = Some em0 \<and> email u = user_cast em0)"
proof -
  have "validate_username (map_option user_cast un) = None"
    and "validate_email (map_option user_cast em) = None"
    using assms by (auto simp: user_create_def Let_def cat_options_Nil split: if_splits)
  then obtain un0 em0 where "un = Some un0" "em = Some em0"
    by (cases un; cases em) (auto simp: validate_username_def validate_email_def)
  then show ?thesis
    using assms by (auto simp: user_create_def Let_def split: if_splits)
qed

lemma signup_created:
  assumes "signup e st body = (r, st')" and "res_status r = 201"
  shows "\<exists>u un em. body ''username'' = Some un \<and> body ''email'' = Some em
           \<and> users st' = users st @ [u]
           \<and> username u = user_cast (toLowerCase un) \<and> email u = user_cast em"
proof -
  have nb: "res_status (errorHandler err) \<noteq> 201" for err
    using errorHandler_status [of err] by auto
  obtain un where un: "body ''username'' = Some un"
    using assms by (cases "body ''username''") (auto simp: signup_def Let_def sendError_def STATUS_CODES)
  let ?P = "\<lambda>u. (body ''email'' \<noteq> None \<and> email u = user_cast (the (body ''email'')))
                  \<or> username u = user_cast (toLowerCase un)"
  have f: "find ?P (users st) = None"
    using assms un by (cases "find ?P (users st)") (auto simp: signup_def Let_def sendError_def CONFLICT_def)
  obtain us' u where c: "user_create e (users st) (body ''email'') (Some (toLowerCase un)) (body ''password'') = Inr (us', u)"
    using assms un f nb
    by (cases "user_create e (users st) (body ''email'') (Some (toLowerCase un)) (body ''password'')")
       (auto simp: signup_def Let_def)
  have "st' = st\<lparr>users := us'\<rparr>"
    using assms un f c by (auto simp: signup_def Let_def)
  then show ?thesis
    using user_create_Inr [OF c] un by auto
qed

text \<open>
  C5. After a successful signup with email \<open>em\<close> and username \<open>un\<close>, and for as
  long as that account is stored, a signup whose email or whose username equals the
  registered one up to letter case is answered 409, and the store after it is the
  store before it: no stored field of any account is modified.
\<close>

theorem signup_duplicate_conflict:
  assumes "signup e st body = (r, st')" and "res_status r = 201"
    and "body ''email'' = Some em" and "body ''username'' = Some un"
    and "again ''username'' = Some un_again"
    and "(again ''email'' = Some em_again \<and> toLowerCase em_again = toLowerCase em)
         \<or> toLowerCase un_again = toLowerCase un"
    and "set (users st') \<subseteq> set (users later)"
  shows "res_status (fst (signup e_again later again)) = 409
       \<and> snd (signup e_again later again) = later"
proof -
  obtain u where u: "users st' = users st @ [u]"
    "username u = user_cast (toLowerCase un)" "email u = user_cast em"
    using signup_created [OF assms(1,2)] assms(3,4) by auto
  have mem: "u \<in> set (users later)" using u(1) assms(7) by auto
  have dup: "(\<exists>em. again ''email'' = Some em \<and> email u = user_cast em)
         \<or> username u = user_cast (toLowerCase un_again)"
    using assms(6) u(2,3) by (auto simp: user_cast_def)
  show ?thesis
    by (rule signup_conflict_present [OF mem assms(5) dup])
qed

lemma first_signup:
  "res_status (fst (signup (sample_env 1) empty_store (signup_body ''alice@example.com'' ''Alice'' ''Passw0rd!''))) = 201"
  by code_simp

lemma lowers: "toLowerCase ''ALICE@Example.com'' = toLowerCase ''alice@example.com''"
  by code_simp

theorem signup_duplicate_conflict_witness:
  "let b0 = signup_body ''alice@example.com'' ''Alice'' ''Passw0rd!'';
       st1 = snd (signup (sample_env 1) empty_store b0);
       b1 = signup_body ''ALICE@Example.com'' ''carol'' ''0ther#Pass''
   in res_status (fst (signup (sample_env 1) empty_store b0)) = 201
    \<and> res_status (fst (signup (sample_env 2) st1 b1)) = 409
    \<and> snd (signup (sample_env 2) st1 b1) = st1"
proof -
  let ?b0 = "signup_body ''alice@example.com'' ''Alice'' ''Passw0rd!''"
  let ?b1 = "signup_body ''ALICE@Example.com'' ''carol'' ''0ther#Pass''"
  let ?st1 = "snd (signup (sample_env 1) empty_store ?b0)"
  have s: "signup (sample_env 1) empty_store ?b0 = (fst (signup (sample_env 1) empty_store ?b0), ?st1)"
    by simp
  have b: "?b0 ''email'' = Some ''alice@example.com''" "?b0 ''username'' = Some ''Alice''"
    "?b1 ''username'' = Some ''carol''" "?b1 ''email'' = Some ''ALICE@Example.com''"
    by (simp_all add: signup_body_def)
  show ?thesis
    using signup_duplicate_conflict [where again = ?b1 and em_again = "''ALICE@Example.com''"
        and later = ?st1 and e_again = "sample_env 2", OF s first_signup b(1,2,3)]
      b(4) lowers first_signup
    by (simp add: Let_def)
qed

section \<open>Login failures\<close>




section \<open>Uniqueness check of the profile update\<close>

lemma findById_Some:
  "find (\<lambda>x. oid x = i) us = Some old \<Longrightarrow> findById us i = Some (old\<lparr>password := None\<rparr>)"
  by (simp add: findById_def)

lemma updateProfile_precheck_hit:
  assumes "find (\<lambda>x. oid x = oid ru) (users st) = Some old"
    and "truthy un \<or> truthy em"
    and "body ''username'' = un" and "body ''email'' = em"
    and "\<exists>v\<in>set (users st). profile_query un em (oid ru) v"
  shows "(fst (updateProfile e st ru body) = sendError 409 ''Username already taken''
          \<or> fst (updateProfile e st ru body) = sendError 409 ''Email already registered'')
         \<and> snd (updateProfile e st ru body) = st"
proof -
  have "oid old = oid ru"
    using assms(1) find_Some_mem [of "\<lambda>x. oid x = oid ru" "users st" old] by simp
  moreover obtain x where "find (profile_query un em (oid ru)) (users st) = Some x"
    using assms(5) find_Some_iff_ex [of "profile_query un em (oid ru)" "users st"] by blast
  ultimately show ?thesis
    using assms(2,3,4) findById_Some [OF assms(1)]
    by (auto simp: updateProfile_def Let_def CONFLICT_def)
qed

lemma updateProfile_precheck_miss:
  assumes "find (\<lambda>x. oid x = oid ru) (users st) = Some old"
    and "body ''username'' = un" and "body ''email'' = em"
    and "\<not> (\<exists>v\<in>set (users st). profile_query un em (oid ru) v)"
  shows "updateProfile e st ru body =
     (let u = old\<lparr>password := None\<rparr>;
          u1 = (if truthy un then u\<lparr>username := user_cast (toLowerCase (the un))\<rparr> else u);
          u2 = (if truthy em then u1\<lparr>email := user_cast (toLowerCase (the em))\<rparr> else u1);
          u3 = (if truthy (body ''password'') then u2\<lparr>password := body ''password''\<rparr> else u2)
      in case user_save e (users st) u u3 of
           Inl err \<Rightarrow> (errorHandler err, st)
         | Inr (us', saved) \<Rightarrow> (sendSuccess OK (toPublicJSON saved) [], st\<lparr>users := us'\<rparr>))"
proof -
  have "oid old = oid ru"
    using assms(1) find_Some_mem [of "\<lambda>x. oid x = oid ru" "users st" old] by simp
  moreover have "find (profile_query un em (oid ru)) (users st) = None"
    using assms(4) by (simp add: find_None_iff)
  ultimately show ?thesis
    using assms(2,3) findById_Some [OF assms(1)]
    by (auto simp: updateProfile_def Let_def)
qed

text \<open>
  C10. A profile update that supplies both a username and an email, by a stored user.
  The pre-save check answers (409, "Username already taken" or "Email already
  registered") when one other user has both the new username and the new email. When
  no single other user has both, but another user holds the new username or another
  user holds the new email (the value differing from the caller's current one), and
  the new values pass the schema's validators, the check does not fire: the save is
  attempted, the unique index refuses it, and the central error handler turns the
  duplicate-key error into the 409 response. The store is unchanged in both cases.
\<close>

theorem updateProfile_conjunctive_precheck:
  assumes "find (\<lambda>x. oid x = oid ru) (users st) = Some old"
    and "body ''username'' = Some un" and "un \<noteq> []"
    and "body ''email'' = Some em" and "em \<noteq> []"
  shows "let new_un = user_cast (toLowerCase un);
             new_em = user_cast (toLowerCase em);
             others = filter (\<lambda>v. oid v \<noteq> oid ru) (users st);
             r = fst (updateProfile e st ru body)
         in ((\<exists>v\<in>set others. username v = new_un \<and> email v = new_em) \<longrightarrow>
                 (r = sendError 409 ''Username already taken''
                  \<or> r = sendError 409 ''Email already registered'')
               \<and> snd (updateProfile e st ru body) = st)
          \<and> (\<not> (\<exists>v\<in>set others. username v = new_un \<and> email v = new_em)
               \<and> ((\<exists>v\<in>set others. username v = new_un) \<and> new_un \<noteq> username old
                  \<or> (\<exists>v\<in>set others. email v = new_em) \<and> new_em \<noteq> email old)
               \<and> (new_un \<noteq> username old \<longrightarrow> validate_username (Some new_un) = None)
               \<and> (new_em \<noteq> email old \<longrightarrow> validate_email (Some new_em) = None)
               \<and> (truthy (body ''password'') \<longrightarrow> validate_password (body ''password'') = None)
               \<longrightarrow> (r = errorHandler (DuplicateKey ''username'' new_un)
                      \<or> r = errorHandler (DuplicateKey ''email'' new_em))
                   \<and> res_status r = 409
                   \<and> snd (updateProfile e st ru body) = st)"
proof -
  define new_un where "new_un = user_cast (toLowerCase un)"
  define new_em where "new_em = user_cast (toLowerCase em)"
  define others where "others = filter (\<lambda>v. oid v \<noteq> oid ru) (users st)"
  have pq: "(\<exists>v\<in>set (users st). profile_query (Some un) (Some em) (oid ru) v)
        \<longleftrightarrow> (\<exists>v\<in>set others. username v = new_un \<and> email v = new_em)"
    using assms(3,5) by (auto simp: profile_query_def others_def new_un_def new_em_def)
  have hit: "(fst (updateProfile e st ru body) = sendError 409 ''Username already taken''
          \<or> fst (updateProfile e st ru body) = sendError 409 ''Email already registered'')
         \<and> snd (updateProfile e st ru body) = st"
    if "\<exists>v\<in>set others. username v = new_un \<and> email v = new_em"
    using updateProfile_precheck_hit [OF assms(1) _ assms(2,4), of e] that pq assms(3) by simp
  have miss: "(fst (updateProfile e st ru body) = errorHandler (DuplicateKey ''username'' new_un)
                      \<or> fst (updateProfile e st ru body) = errorHandler (DuplicateKey ''email'' new_em))
                   \<and> res_status (fst (updateProfile e st ru body)) = 409
                   \<and> snd (updateProfile e st ru body) = st"
    if no: "\<not> (\<exists>v\<in>set others. username v = new_un \<and> email v = new_em)"
      and taken: "(\<exists>v\<in>set others. username v = new_un) \<and> new_un \<noteq> username old
                  \<or> (\<exists>v\<in>set others. email v = new_em) \<and> new_em \<noteq> email old"
      and v1: "new_un \<noteq> username old \<longrightarrow> validate_username (Some new_un) = None"
      and v2: "new_em \<noteq> email old \<longrightarrow> validate_email (Some new_em) = None"
      and v3: "truthy (body ''password'') \<longrightarrow> validate_password (body ''password'') = None"
  proof -
    let ?u = "old\<lparr>password := None\<rparr>"
    let ?u2 = "?u\<lparr>username := new_un, email := new_em\<rparr>"
    let ?u3 = "if truthy (body ''password'') then ?u2\<lparr>password := body ''password''\<rparr> else ?u2"
    have oid: "oid old = oid ru"
      using assms(1) find_Some_mem [of "\<lambda>x. oid x = oid ru" "users st" old] by simp
    have up: "updateProfile e st ru body =
       (case user_save e (users st) ?u ?u3 of
           Inl err \<Rightarrow> (errorHandler err, st)
         | Inr (us', saved) \<Rightarrow> (sendSuccess OK (toPublicJSON saved) [], st\<lparr>users := us'\<rparr>))"
      using updateProfile_precheck_miss [OF assms(1,2,4), of e] no pq assms(3,5)
      by (simp add: Let_def new_un_def new_em_def)
    have tr: "truthy (body ''password'') \<Longrightarrow> body ''password'' \<noteq> None"
      by (cases "body ''password''") auto
    have sv: "user_save e (users st) ?u ?u3 = Inl (DuplicateKey ''username'' new_un)
            \<or> user_save e (users st) ?u ?u3 = Inl (DuplicateKey ''email'' new_em)"
      using taken v1 v2 v3 oid tr
      by (auto simp: user_save_def Let_def cat_options_Nil others_def)
    then show ?thesis
      using up by (auto simp: sendError_def CONFLICT_def)
  qed
  show ?thesis
    unfolding Let_def
    using hit miss
    unfolding new_un_def new_em_def others_def
    by blast
qed

lemma sample_casts:
  "user_cast (toLowerCase ''alice'') = ''alice''"
  "user_cast (toLowerCase ''bob@example.com'') = ''bob@example.com''"
  "user_cast (toLowerCase ''alice@example.com'') = ''alice@example.com''"
  by code_simp+

lemma valid_samples:
  "validate_username (Some ''alice'') = None"
  "validate_email (Some ''bob@example.com'') = None"
  by code_simp+

theorem updateProfile_conjunctive_precheck_witness:
  "(fst (updateProfile (sample_env 9) three_users carol (profile_body ''alice'' ''bob@example.com''))
     = errorHandler (DuplicateKey ''username'' ''alice'')
    \<or> fst (updateProfile (sample_env 9) three_users carol (profile_body ''alice'' ''bob@example.com''))
     = errorHandler (DuplicateKey ''email'' ''bob@example.com''))
   \<and> res_status (fst (updateProfile (sample_env 9) three_users carol
        (profile_body ''alice'' ''bob@example.com''))) = 409
   \<and> snd (updateProfile (sample_env 9) three_users carol (profile_body ''alice'' ''bob@example.com''))
     = three_users
   \<and> (fst (updateProfile (sample_env 9) three_users carol (profile_body ''alice'' ''alice@example.com''))
     = sendError 409 ''Username already taken''
    \<or> fst (updateProfile (sample_env 9) three_users carol (profile_body ''alice'' ''alice@example.com''))
     = sendError 409 ''Email already registered'')"
proof -
  have f: "find (\<lambda>x. oid x = oid carol) (users three_users) = Some carol"
    by (simp add: three_users_def alice_def bob_def carol_def)
  have b: "profile_body un em ''username'' = Some un" "profile_body un em ''email'' = Some em"
    "profile_body un em ''password'' = None" for un em
    by (simp_all add: profile_body_def)
  have o: "filter (\<lambda>v. oid v \<noteq> oid carol) (users three_users) = [alice, bob]"
    by (simp add: three_users_def alice_def bob_def carol_def)
  have 1: "(fst (updateProfile (sample_env 9) three_users carol (profile_body ''alice'' ''bob@example.com''))
     = errorHandler (DuplicateKey ''username'' ''alice'')
    \<or> fst (updateProfile (sample_env 9) three_users carol (profile_body ''alice'' ''bob@example.com''))
     = errorHandler (DuplicateKey ''email'' ''bob@example.com''))
   \<and> res_status (fst (updateProfile (sample_env 9) three_users carol
        (profile_body ''alice'' ''bob@example.com''))) = 409
   \<and> snd (updateProfile (sample_env 9) three_users carol (profile_body ''alice'' ''bob@example.com''))
     = three_users"
    using updateProfile_conjunctive_precheck [where un = "''alice''" and em = "''bob@example.com''"
        and e = "sample_env 9" and body = "profile_body ''alice'' ''bob@example.com''", OF f b(1) _ b(2)]
      valid_samples
    unfolding Let_def o sample_casts b
    by (simp add: alice_def bob_def carol_def)
  have 2: "fst (updateProfile (sample_env 9) three_users carol (profile_body ''alice'' ''alice@example.com''))
     = sendError 409 ''Username already taken''
    \<or> fst (updateProfile (sample_env 9) three_users carol (profile_body ''alice'' ''alice@example.com''))
     = sendError 409 ''Email already registered''"
    using updateProfile_conjunctive_precheck [where un = "''alice''" and em = "''alice@example.com''"
        and e = "sample_env 9" and body = "profile_body ''alice'' ''alice@example.com''", OF f b(1) _ b(2)]
    unfolding Let_def o sample_casts b
    by (simp add: alice_def bob_def carol_def sendError_def)
  from 1 2 show ?thesis by simp
qed

section \<open>The validation gate\<close>















section \<open>Order of the middleware\<close>

lemma validate_Some_status: "validate errs = Some r \<Longrightarrow> res_status r = 422 \<and> errs \<noteq> []"
  by (auto simp: validate_def UNPROCESSABLE_ENTITY_def split: if_splits)

lemma validate_None: "validate errs = None \<longleftrightarrow> errs = []"
  by (simp add: validate_def)

lemma run_validated:
  "run e [Rules cs, Validate, Handler ep] st c =
     (let v = run_chains (ctx_req c) cs; errs = ctx_errors c @ fst v
      in if errs \<noteq> [] then (the (validate errs), st, [Rules cs, Validate])
         else (fst (handle e st ep (snd v) (ctx_user c)),
               snd (handle e st ep (snd v) (ctx_user c)),
               [Rules cs, Validate, Handler ep]))"
  by (auto simp: Let_def validate_def)

lemma run_protected:
  "run e (Protect # ss) st (incoming req) =
     (case protect e (users st) (req_authorization req) of
        Reject r \<Rightarrow> (r, st, [Protect])
      | Pass u \<Rightarrow>
          (fst (run e ss st ((incoming req)\<lparr>ctx_user := Some u\<rparr>)),
           fst (snd (run e ss st ((incoming req)\<lparr>ctx_user := Some u\<rparr>))),
           Protect # snd (snd (run e ss st ((incoming req)\<lparr>ctx_user := Some u\<rparr>)))))"
  by (simp add: incoming_def Let_def split: gate.splits)

lemma routes_shape:
  "\<exists>cs. routes e ep = [Rules cs, Validate, Handler ep] \<and> ep \<in> {Signup, Login}
      \<or> routes e ep = [Protect, Handler ep] \<and> ep = GetProfile
      \<or> routes e ep = [Protect, Rules cs, Validate, Handler ep] \<and> ep \<notin> {Signup, Login, GetProfile}"
  by (cases ep) (simp_all add: routes_def authRoutes_def taskRoutes_def)

text \<open>
  C4, as the routes are written. The public routes (signup, login) run their rule
  set, then \<open>validate\<close>, then the handler; \<open>GET /profile\<close> runs \<open>protect\<close>, then the
  handler; every other route runs \<open>protect\<close> first, then its rule set, then
  \<open>validate\<close>, then the handler. The middleware that ran is an initial part of the
  route. The store is changed by nothing but the handler, and the handler runs only
  when the request violates no rule of the route: a request that fails validation is
  answered 422 by \<open>validate\<close> (or 401 by \<open>protect\<close>, before validation), the handler
  does not run, and the store is unchanged.
\<close>

theorem authorization_then_validation_then_handler:
  "let res = api e st ep req;
       ran = snd (snd res);
       found = fst (run_chains req (stage_rules (routes e ep)))
   in (\<exists>cs. routes e ep = [Rules cs, Validate, Handler ep] \<and> ep \<in> {Signup, Login}
         \<or> routes e ep = [Protect, Handler ep] \<and> ep = GetProfile
         \<or> routes e ep = [Protect, Rules cs, Validate, Handler ep]
            \<and> ep \<notin> {Signup, Login, GetProfile})
    \<and> (\<exists>rest. routes e ep = ran @ rest)
    \<and> ran \<noteq> []
    \<and> (Handler ep \<notin> set ran \<longrightarrow> fst (snd res) = st)
    \<and> (Handler ep \<in> set ran \<longrightarrow> found = [])
    \<and> (found \<noteq> [] \<longrightarrow>
          Handler ep \<notin> set ran \<and> fst (snd res) = st
          \<and> (res_status (fst res) = 422 \<and> last ran = Validate
              \<or> res_status (fst res) = 401 \<and> ran = [Protect]))"
proof -
  from routes_shape [of e ep] obtain cs where
    "routes e ep = [Rules cs, Validate, Handler ep] \<and> ep \<in> {Signup, Login}
      \<or> routes e ep = [Protect, Handler ep] \<and> ep = GetProfile
      \<or> routes e ep = [Protect, Rules cs, Validate, Handler ep] \<and> ep \<notin> {Signup, Login, GetProfile}"
    by blast
  then consider
      (anyone) "routes e ep = [Rules cs, Validate, Handler ep]" "ep \<in> {Signup, Login}"
    | (profile) "routes e ep = [Protect, Handler ep]" "ep = GetProfile"
    | (guarded) "routes e ep = [Protect, Rules cs, Validate, Handler ep]" "ep \<notin> {Signup, Login, GetProfile}"
    by blast
  then show ?thesis
  proof cases
    case anyone
    then show ?thesis
      unfolding api_def Let_def anyone(1) run_validated
      by (auto simp: incoming_def validate_def UNPROCESSABLE_ENTITY_def)
  next
    case profile
    then show ?thesis
      unfolding api_def Let_def profile(1) run_protected
      by (auto simp: Let_def split: gate.splits)
  next
    case guarded
    then show ?thesis
      unfolding api_def Let_def guarded(1) run_protected run_validated
      by (auto simp: incoming_def validate_def UNPROCESSABLE_ENTITY_def Let_def
          dest: protect_status split: gate.splits)
  qed
qed

lemma bad_update_errors:
  "map e_msg (fst (run_chains anonymous_bad_update updateTaskValidation))
     = [''Invalid task ID'', status_message]"
  by code_simp

lemma bad_update_errors_alice:
  "map e_msg (fst (run_chains alice_bad_update updateTaskValidation))
     = [''Invalid task ID'', status_message]"
  by code_simp

lemma update_route:
  "routes e UpdateTask = [Protect, Rules updateTaskValidation, Validate, Handler UpdateTask]"
  by (simp add: routes_def taskRoutes_def)

lemma anonymous_rejected:
  "api (sample_env 3) sample_store UpdateTask anonymous_bad_update
     = (sendError 401 ''Unauthorized access'', sample_store, [Protect])"
  by (simp add: api_def update_route incoming_def anonymous_bad_update_def protect_def
      UNAUTHORIZED_def UNAUTHORIZED_ACCESS_def)

text \<open>
  C4 as stated fails: on the protected routes the authorization gate runs before the
  validation gate. A request to update a task that has no \<open>Authorization\<close> header and
  violates two rules is answered 401 by \<open>protect\<close>; the rule set and \<open>validate\<close> never
  run.
\<close>

theorem validation_before_authorization_counterexample:
  "fst (run_chains anonymous_bad_update updateTaskValidation) \<noteq> []
   \<and> routes (sample_env 3) UpdateTask
       = [Protect, Rules updateTaskValidation, Validate, Handler UpdateTask]
   \<and> res_status (fst (api (sample_env 3) sample_store UpdateTask anonymous_bad_update)) = 401
   \<and> snd (snd (api (sample_env 3) sample_store UpdateTask anonymous_bad_update)) = [Protect]"
  using bad_update_errors by (auto simp: update_route anonymous_rejected sendError_def)

lemma alice_status:
  "res_status (fst (api (sample_env 3) sample_store UpdateTask alice_bad_update)) = 422"
  by code_simp

theorem authorization_then_validation_then_handler_witness:
  "fst (run_chains alice_bad_update (stage_rules (routes (sample_env 3) UpdateTask))) \<noteq> []
   \<and> res_status (fst (api (sample_env 3) sample_store UpdateTask alice_bad_update)) = 422
   \<and> fst (snd (api (sample_env 3) sample_store UpdateTask alice_bad_update)) = sample_store
   \<and> Handler UpdateTask \<notin> set (snd (snd (api (sample_env 3) sample_store UpdateTask alice_bad_update)))
   \<and> last (snd (snd (api (sample_env 3) sample_store UpdateTask alice_bad_update))) = Validate"
proof -
  have f: "fst (run_chains alice_bad_update (stage_rules (routes (sample_env 3) UpdateTask))) \<noteq> []"
    using bad_update_errors_alice by (auto simp: update_route)
  show ?thesis
    using authorization_then_validation_then_handler
      [of "sample_env 3" sample_store UpdateTask alice_bad_update] f alice_status
    unfolding Let_def by auto
qed

section \<open>The password is write-only\<close>

lemma no_pw_sendError [simp]: "\<not> has_key ''password'' (res_body (sendError s m))"
  by (simp add: sendError_def)

lemma no_pw_errorHandler [simp]: "\<not> has_key ''password'' (res_body (errorHandler err))"
  by (cases err) simp_all

lemma no_pw_num_json [simp]: "\<not> has_key k (num_json n)"
  by (cases n) simp_all

lemma no_pw_toPublicJSON [simp]: "\<not> has_key ''password'' (JObj (toPublicJSON u))"
  by (simp add: toPublicJSON_def)

lemma no_pw_user_toJSON: "\<not> has_key ''password'' (user_toJSON u)"
  by (auto simp: user_toJSON_def user_toObject_def split: option.splits)

lemma no_pw_task_toJSON [simp]: "\<not> has_key ''password'' (task_toJSON t)"
  by (simp add: task_toJSON_def)

lemma no_pw_public_response [simp]:
  "\<not> has_key ''password'' (res_body (sendSuccess s (toPublicJSON u) m))"
  by (simp add: sendSuccess_def toPublicJSON_def)

lemma no_pw_token_response [simp]:
  "\<not> has_key ''password'' (res_body
      (sendSuccess s [(''token'', JStr t), (''user'', JObj (toPublicJSON u))] m))"
  by (simp add: sendSuccess_def toPublicJSON_def)

lemma no_pw_paginated [simp]:
  "\<not> has_key ''password'' (res_body (sendPaginatedResponse (map task_toJSON ts) p l n))"
  by (simp add: sendPaginatedResponse_def Let_def)

lemma no_pw_verror: "\<not> has_key ''password'' (verror_json x)"
  by (cases "e_value x") (simp_all add: verror_json_def)

lemma no_pw_validate: "validate errs = Some r \<Longrightarrow> \<not> has_key ''password'' (res_body r)"
  by (auto simp: validate_def no_pw_verror split: if_splits)

lemma no_pw_signup: "\<not> has_key ''password'' (res_body (fst (signup e st b)))"
  by (simp add: signup_def Let_def del: errorHandler.simps split: option.splits sum.splits prod.splits)

lemma no_pw_login: "\<not> has_key ''password'' (res_body (fst (login e st b)))"
  by (simp add: login_def Let_def del: errorHandler.simps split: option.splits)

lemma no_pw_getProfile: "\<not> has_key ''password'' (res_body (fst (getProfile st u)))"
  by (simp add: getProfile_def split: option.splits)

lemma no_pw_updateProfile: "\<not> has_key ''password'' (res_body (fst (updateProfile e st u b)))"
  by (simp add: updateProfile_def Let_def del: errorHandler.simps
      split: option.splits sum.splits prod.splits)

lemma no_pw_getTasks: "\<not> has_key ''password'' (res_body (getTasks txt db uid q))"
  by (simp add: getTasks_def Let_def)

lemma no_pw_createTask: "\<not> has_key ''password'' (res_body (fst (createTask e st uid b)))"
  by (simp add: createTask_def del: errorHandler.simps split: sum.splits prod.splits)

lemma no_pw_getTaskById: "\<not> has_key ''password'' (res_body (fst (getTaskById st uid i)))"
  by (simp add: getTaskById_def split: option.splits)

lemma no_pw_updateTask: "\<not> has_key ''password'' (res_body (fst (updateTask e st uid i b)))"
  by (simp add: updateTask_def del: errorHandler.simps split: option.splits sum.splits prod.splits)

lemma no_pw_deleteTask: "\<not> has_key ''password'' (res_body (fst (deleteTask st uid i)))"
  by (simp add: deleteTask_def sendSuccess_def split: option.splits)

lemma no_pw_handle: "\<not> has_key ''password'' (res_body (fst (handle e st ep req ru)))"
  by (cases ep; cases ru)
     (simp_all add: handle_def no_pw_signup no_pw_login no_pw_getProfile no_pw_updateProfile
        no_pw_getTasks no_pw_createTask no_pw_getTaskById no_pw_updateTask no_pw_deleteTask
        del: errorHandler.simps)

lemma no_pw_protect: "protect e us h = Reject r \<Longrightarrow> \<not> has_key ''password'' (res_body r)"
  by (auto simp: protect_def Let_def split: if_splits sum.splits option.splits)

lemma no_pw_run: "\<not> has_key ''password'' (res_body (fst (run e ss st c)))"
proof (induction e ss st c rule: run.induct)
  case (1 e st c)
  then show ?case by (simp add: notFound_def)
next
  case (2 e ss st c)
  then show ?case
    by (auto simp: Let_def dest: no_pw_protect split: gate.splits)
next
  case (3 e cs ss st c)
  then show ?case by (simp add: Let_def)
next
  case (4 e ss st c)
  then show ?case
    by (auto simp: Let_def dest: no_pw_validate split: option.splits)
next
  case (5 e ep ss st c)
  then show ?case by (simp add: Let_def no_pw_handle)
qed

lemma find_map_same:
  "(\<And>u. P (f u) = P u) \<Longrightarrow> find P (map f us) = map_option f (find P us)"
  by (induction us) auto

lemma findById_with_passwords:
  "findById (map (\<lambda>u. u\<lparr>password := g u\<rparr>) us) i = findById us i"
proof -
  have "find (\<lambda>u. oid u = i) (map (\<lambda>u. u\<lparr>password := g u\<rparr>) us)
        = map_option (\<lambda>u. u\<lparr>password := g u\<rparr>) (find (\<lambda>u. oid u = i) us)"
    by (rule find_map_same) simp
  then show ?thesis
    by (cases "find (\<lambda>u. oid u = i) us") (simp_all add: findById_def)
qed

lemma users_with_passwords:
  "users (with_passwords g st) = map (\<lambda>u. u\<lparr>password := g u\<rparr>) (users st)"
  by (simp add: with_passwords_def)

lemma protect_with_passwords:
  "protect e (users (with_passwords g st)) h = protect e (users st) h"
  unfolding protect_def users_with_passwords findById_with_passwords ..

lemma tasks_with_passwords: "tasks (with_passwords g st) = tasks st"
  by (simp add: with_passwords_def)

lemma user_create_with_passwords:
  "user_create e (map (\<lambda>u. u\<lparr>password := g u\<rparr>) us) em un pw =
     (case user_create e us em un pw of
        Inl err \<Rightarrow> Inl err
      | Inr (us', d) \<Rightarrow> Inr (map (\<lambda>u. u\<lparr>password := g u\<rparr>) us @ [d], d))"
  by (simp add: user_create_def Let_def)

lemma signup_with_passwords:
  "fst (signup e (with_passwords g st) b) = fst (signup e st b)"
proof (cases "b ''username''")
  case None
  then show ?thesis by (simp add: signup_def Let_def)
next
  case (Some un)
  let ?f = "\<lambda>u. u\<lparr>password := g u\<rparr>"
  let ?P = "\<lambda>u. (b ''email'' \<noteq> None \<and> email u = user_cast (the (b ''email'')))
                  \<or> username u = user_cast (toLowerCase un)"
  have f: "find ?P (map ?f (users st)) = map_option ?f (find ?P (users st))"
    by (rule find_map_same) simp
  show ?thesis
  proof (cases "find ?P (users st)")
    case (Some x)
    then show ?thesis
      using \<open>b ''username'' = Some un\<close> f
      by (simp add: signup_def Let_def users_with_passwords)
  next
    case None
    show ?thesis
    proof (cases "user_create e (users st) (b ''email'') (Some (toLowerCase un)) (b ''password'')")
      case (Inl err)
      then show ?thesis
        using \<open>b ''username'' = Some un\<close> f None
        by (simp add: signup_def Let_def users_with_passwords user_create_with_passwords
            del: errorHandler.simps)
    next
      case (Inr p)
      then show ?thesis
        using \<open>b ''username'' = Some un\<close> f None
        by (cases p) (simp add: signup_def Let_def users_with_passwords user_create_with_passwords)
    qed
  qed
qed

lemma getProfile_with_passwords:
  "fst (getProfile (with_passwords g st) u) = fst (getProfile st u)"
  by (simp add: getProfile_def users_with_passwords findById_with_passwords split: option.splits)

lemma user_save_with_passwords:
  "map_sum id snd (user_save e (map (\<lambda>u. u\<lparr>password := g u\<rparr>) us) loaded d)
     = map_sum id snd (user_save e us loaded d)"
proof -
  let ?f = "\<lambda>u. u\<lparr>password := g u\<rparr>"
  have b1: "(\<exists>u\<in>set (map ?f us). oid u \<noteq> oid d \<and> username u = username d)
            = (\<exists>u\<in>set us. oid u \<noteq> oid d \<and> username u = username d)"
    by simp
  have b2: "(\<exists>u\<in>set (map ?f us). oid u \<noteq> oid d \<and> email u = email d)
            = (\<exists>u\<in>set us. oid u \<noteq> oid d \<and> email u = email d)"
    by simp
  define dup_un where "dup_un = (\<exists>u\<in>set us. oid u \<noteq> oid d \<and> username u = username d)"
  define dup_em where "dup_em = (\<exists>u\<in>set us. oid u \<noteq> oid d \<and> email u = email d)"
  show ?thesis
    unfolding user_save_def Let_def b1 b2
    unfolding dup_un_def [symmetric] dup_em_def [symmetric]
    by (simp split: if_splits)
qed

lemma save_response:
  "fst (case X of Inl err \<Rightarrow> (errorHandler err, s1)
              | Inr (us', saved) \<Rightarrow> (sendSuccess OK (toPublicJSON saved) [], h us'))
     = (case map_sum id snd X of
          Inl err \<Rightarrow> errorHandler err
        | Inr saved \<Rightarrow> sendSuccess OK (toPublicJSON saved) [])"
  by (cases X) (auto simp del: errorHandler.simps)

lemma updateProfile_with_passwords:
  "fst (updateProfile e (with_passwords g st) u b) = fst (updateProfile e st u b)"
proof (cases "findById (users st) (oid u)")
  case None
  then show ?thesis
    by (simp add: updateProfile_def Let_def users_with_passwords findById_with_passwords)
next
  case (Some x)
  let ?f = "\<lambda>u. u\<lparr>password := g u\<rparr>"
  let ?Q = "profile_query (b ''username'') (b ''email'') (oid x)"
  have f: "find ?Q (map ?f (users st)) = map_option ?f (find ?Q (users st))"
    by (rule find_map_same) (simp add: profile_query_def)
  define pre where "pre us = (if truthy (b ''username'') \<or> truthy (b ''email'')
                              then find ?Q us else None)" for us
  have pre: "pre (map ?f (users st)) = map_option ?f (pre (users st))"
    by (simp add: pre_def f)
  have up: "fst (updateProfile e s u b) =
     (case findById (users s) (oid u) of
        None \<Rightarrow> sendError NOT_FOUND USER_NOT_FOUND
      | Some x \<Rightarrow>
         (case (if truthy (b ''username'') \<or> truthy (b ''email'')
                then find (profile_query (b ''username'') (b ''email'') (oid x)) (users s) else None) of
            Some existingUser \<Rightarrow>
              sendError CONFLICT
                     (if Some (username existingUser) = map_option toLowerCase (b ''username'')
                      then ''Username already taken''
                      else ''Email already registered'')
          | None \<Rightarrow>
              (let u1 = (if truthy (b ''username'')
                             then x\<lparr>username := user_cast (toLowerCase (the (b ''username'')))\<rparr> else x);
                       u2 = (if truthy (b ''email'')
                             then u1\<lparr>email := user_cast (toLowerCase (the (b ''email'')))\<rparr> else u1);
                       u3 = (if truthy (b ''password'') then u2\<lparr>password := b ''password''\<rparr> else u2)
               in case map_sum id snd (user_save e (users s) x u3) of
                    Inl err \<Rightarrow> errorHandler err
                  | Inr saved \<Rightarrow> sendSuccess OK (toPublicJSON saved) [])))" for s
    unfolding updateProfile_def Let_def
    by (simp add: save_response split: option.splits del: errorHandler.simps)
  show ?thesis
    unfolding up users_with_passwords findById_with_passwords Some option.case
      pre_def [symmetric] pre user_save_with_passwords
    by (cases "pre (users st)") simp_all
qed

lemma createTask_with_passwords:
  "fst (createTask e (with_passwords g st) uid b) = fst (createTask e st uid b)"
  by (simp add: createTask_def tasks_with_passwords split: sum.splits prod.splits
      del: errorHandler.simps)

lemma getTaskById_with_passwords:
  "fst (getTaskById (with_passwords g st) uid i) = fst (getTaskById st uid i)"
  by (simp add: getTaskById_def tasks_with_passwords split: option.splits)

lemma updateTask_with_passwords:
  "fst (updateTask e (with_passwords g st) uid i b) = fst (updateTask e st uid i b)"
  by (simp add: updateTask_def tasks_with_passwords split: option.splits sum.splits prod.splits
      del: errorHandler.simps)

lemma deleteTask_with_passwords:
  "fst (deleteTask (with_passwords g st) uid i) = fst (deleteTask st uid i)"
  by (simp add: deleteTask_def tasks_with_passwords split: option.splits)

lemma handle_with_passwords:
  "ep \<noteq> Login \<Longrightarrow> fst (handle e (with_passwords g st) ep req ru) = fst (handle e st ep req ru)"
  by (cases ep; cases ru)
     (simp_all add: handle_def signup_with_passwords getProfile_with_passwords
        updateProfile_with_passwords createTask_with_passwords getTaskById_with_passwords
        updateTask_with_passwords deleteTask_with_passwords tasks_with_passwords
        del: errorHandler.simps)

lemma run_with_passwords:
  "Handler Login \<notin> set ss \<Longrightarrow> fst (run e ss (with_passwords g st) c) = fst (run e ss st c)"
proof (induction ss arbitrary: c)
  case Nil
  then show ?case by simp
next
  case (Cons s ss)
  show ?case
  proof (cases s)
    case Protect
    with Cons show ?thesis
      by (simp add: protect_with_passwords Let_def split: gate.splits)
  next
    case (Rules cs)
    with Cons show ?thesis by (simp add: Let_def)
  next
    case Validate
    with Cons show ?thesis by (simp add: Let_def split: option.splits)
  next
    case (Handler ep)
    with Cons have "ep \<noteq> Login" by auto
    then show ?thesis
      using Handler by (simp add: Let_def handle_with_passwords)
  qed
qed

lemma routes_handler: "Handler ep' \<in> set (routes e ep) \<Longrightarrow> ep' = ep"
  by (cases ep) (auto simp: routes_def authRoutes_def taskRoutes_def)

text \<open>
  C2. No response of any endpoint, and so no success response, has a field named
  \<open>password\<close> at any depth. For every endpoint other than login the response is the
  same whatever the stored password hashes are; login reads the hash only to compare
  it. The public projection has no \<open>password\<close> field, the user schema's \<open>toJSON\<close>
  transform has none either, and the user that the authorization gate attaches to the
  request is loaded without the password.
\<close>

theorem password_never_disclosed:
  "\<not> has_key ''password'' (res_body (fst (api e st ep req)))
   \<and> (ep \<noteq> Login \<longrightarrow> fst (api e (with_passwords g st) ep req) = fst (api e st ep req))
   \<and> \<not> has_key ''password'' (JObj (toPublicJSON u))
   \<and> \<not> has_key ''password'' (user_toJSON u)
   \<and> (\<forall>u'. protect e us h = Pass u' \<longrightarrow> password u' = None)"
proof (intro conjI allI impI)
  show "\<not> has_key ''password'' (res_body (fst (api e st ep req)))"
    unfolding api_def by (rule no_pw_run)
next
  assume "ep \<noteq> Login"
  then have "Handler Login \<notin> set (routes e ep)"
    using routes_handler [of Login e ep] by auto
  then show "fst (api e (with_passwords g st) ep req) = fst (api e st ep req)"
    unfolding api_def by (rule run_with_passwords)
next
  show "\<not> has_key ''password'' (JObj (toPublicJSON u))"
    by (rule no_pw_toPublicJSON)
next
  show "\<not> has_key ''password'' (user_toJSON u)"
    by (rule no_pw_user_toJSON)
next
  fix u' assume "protect e us h = Pass u'"
  then show "password u' = None"
    by (auto simp: protect_def findById_def Let_def split: if_splits sum.splits option.splits)
qed

lemma sample_protect:
  "protect (sample_env 3) (users sample_store) (Some ''Bearer secret.u1.iii.xxxx'')
     = Pass (alice\<lparr>password := None\<rparr>)"
  by code_simp

lemma sample_profile:
  "fst (api (sample_env 3) sample_store GetProfile alice_request)
     = sendSuccess 200 (toPublicJSON alice) []"
  by code_simp

theorem password_never_disclosed_witness:
  "fst (api (sample_env 3) sample_store GetProfile alice_request)
     = sendSuccess 200 (toPublicJSON alice) []
   \<and> \<not> has_key ''password'' (res_body (fst (api (sample_env 3) sample_store GetProfile alice_request)))
   \<and> fst (api (sample_env 3) (with_passwords (\<lambda>u. Some ''other'') sample_store) GetProfile
            alice_request)
       = sendSuccess 200 (toPublicJSON alice) []
   \<and> protect (sample_env 3) (users sample_store) (Some ''Bearer secret.u1.iii.xxxx'')
       = Pass (alice\<lparr>password := None\<rparr>)
   \<and> password (alice\<lparr>password := None\<rparr>) = None"
  using password_never_disclosed
    [of "sample_env 3" sample_store GetProfile alice_request "\<lambda>u. Some ''other''" alice
        "users sample_store" "Some ''Bearer secret.u1.iii.xxxx''"]
    sample_protect sample_profile
  by simp

section \<open>Task ids stay unique\<close>

text \<open>
  The uniqueness of task ids, which the ownership and update theorems assume, holds of
  the empty collection and is kept by every request: a created task is owned by the
  caller and has an id that no stored task has, an update keeps the ids, and a delete
  removes one task.
\<close>

lemma task_create_Inr:
  assumes "task_create e ts ti de sta uid = Inr (ts', t)"
  shows "ts' = ts @ [t] \<and> userId t = uid \<and> oid t \<notin> oid ` set ts"
  using assms by (auto simp: task_create_def Let_def split: if_splits)

lemma createTask_owner:
  assumes "createTask e st uid b = (r, st')" and "res_status r = 201"
  shows "\<exists>t. tasks st' = tasks st @ [t] \<and> userId t = uid \<and> oid t \<notin> oid ` set (tasks st)
           \<and> users st' = users st \<and> res_body r = task_toJSON t"
proof (cases "task_create e (tasks st) (b ''title'') (or_default (b ''description'') [])
                (or_default (b ''status'') ''todo'') uid")
  case (Inl err)
  then show ?thesis
    using assms errorHandler_status [of err] by (auto simp: createTask_def)
next
  case (Inr p)
  obtain ts' t where p: "p = (ts', t)" by (cases p)
  show ?thesis
    using assms task_create_Inr [OF Inr [unfolded p]] Inr p
    by (auto simp: createTask_def)
qed

lemma createTask_keeps_ids:
  "distinct (map oid (tasks st)) \<Longrightarrow> distinct (map oid (tasks (snd (createTask e st uid b))))"
proof (cases "task_create e (tasks st) (b ''title'') (or_default (b ''description'') [])
                (or_default (b ''status'') ''todo'') uid")
  case (Inl err)
  assume "distinct (map oid (tasks st))"
  with Inl show ?thesis by (simp add: createTask_def)
next
  case (Inr p)
  assume d: "distinct (map oid (tasks st))"
  obtain ts' t where p: "p = (ts', t)" by (cases p)
  show ?thesis
    using d task_create_Inr [OF Inr [unfolded p]] Inr p
    by (auto simp: createTask_def)
qed

lemma task_save_ids:
  "task_save e ts loaded d = Inr (ts', saved) \<Longrightarrow> map oid ts' = map oid ts"
  by (auto simp: task_save_def Let_def split: if_splits)

lemma updateTask_keeps_ids:
  "map oid (tasks (snd (updateTask e st uid i b))) = map oid (tasks st)"
  by (auto simp: updateTask_def dest: task_save_ids split: option.splits sum.splits)

lemma set_remove_first: "set (remove_first P xs) \<subseteq> set xs"
  by (induction xs) auto

lemma distinct_remove_first:
  "distinct (map f xs) \<Longrightarrow> distinct (map f (remove_first P xs))"
proof (induction xs)
  case Nil
  then show ?case by simp
next
  case (Cons a xs)
  then show ?case
    using set_remove_first [of P xs] by auto
qed

lemma deleteTask_keeps_ids:
  "distinct (map oid (tasks st)) \<Longrightarrow> distinct (map oid (tasks (snd (deleteTask st uid i))))"
  by (auto simp: deleteTask_def distinct_remove_first split: option.splits)

lemma handle_keeps_ids:
  "distinct (map oid (tasks st)) \<Longrightarrow> distinct (map oid (tasks (snd (handle e st ep req ru))))"
proof -
  assume d: "distinct (map oid (tasks st))"
  have a: "tasks (snd (signup e st b)) = tasks st" for b
    by (simp add: signup_def Let_def split: option.splits sum.splits prod.splits)
  have b: "tasks (snd (login e st b)) = tasks st" for b
    by (simp add: login_def Let_def split: option.splits)
  have c: "tasks (snd (getProfile st u)) = tasks st" for u
    by (simp add: getProfile_def split: option.splits)
  have u: "tasks (snd (updateProfile e st u b)) = tasks st" for u b
    by (simp add: updateProfile_def Let_def split: option.splits sum.splits prod.splits)
  have g: "tasks (snd (getTaskById st uid i)) = tasks st" for uid i
    by (simp add: getTaskById_def split: option.splits)
  show ?thesis
    using d
    by (cases ep; cases ru)
       (simp_all add: handle_def a b c u g createTask_keeps_ids updateTask_keeps_ids
          deleteTask_keeps_ids)
qed

lemma run_keeps_ids:
  "distinct (map oid (tasks st)) \<Longrightarrow> distinct (map oid (tasks (fst (snd (run e ss st c)))))"
proof (induction ss arbitrary: c)
  case Nil
  then show ?case by simp
next
  case (Cons s ss)
  show ?case
  proof (cases s)
    case Protect
    with Cons show ?thesis by (simp add: Let_def split: gate.splits)
  next
    case (Rules cs)
    with Cons show ?thesis by (simp add: Let_def)
  next
    case Validate
    with Cons show ?thesis by (simp add: Let_def split: option.splits)
  next
    case (Handler ep)
    with Cons show ?thesis by (simp add: Let_def handle_keeps_ids)
  qed
qed

lemma api_keeps_task_ids_distinct:
  "distinct (map oid (tasks st)) \<Longrightarrow> distinct (map oid (tasks (fst (snd (api e st ep req)))))"
  unfolding api_def by (rule run_keeps_ids)

end
